theory Spec2Isabelle
  imports Complex_Main "HOL-Library.Sublist"
begin

section \<open>Data model of the deployment and monitoring system\<close>

text \<open>
  The embedded program is the class \<open>DeploymentMonitoringSystem\<close>. Times are
  milliseconds since the epoch (\<open>Date.now()\<close>, \<open>new Date()\<close>), kept as integers.
  Status, severity and type tags are the string literals of the source.
\<close>

record Threshold =
  warning :: real
  critical :: real

record DeploymentStep =
  step_name :: string
  step_status :: string
  step_timestamp :: int

text \<open>
  A deployment job as \<open>deployFullSystem\<close> creates it; the optional fields are the
  properties that \<open>executeFullDeployment\<close> adds later.
\<close>

record Deployment =
  dep_status :: string
  dep_started_at :: int
  dep_environment :: string
  dep_steps :: "DeploymentStep list"
  dep_completed_at :: "int option"
  dep_success :: "bool option"
  dep_error :: "string option"
  dep_failed_at :: "int option"

record ServiceHealth =
  svc_status :: string
  svc_connection :: "string option"
  svc_query_time :: "int option"
  svc_tables_accessible :: "bool option"
  svc_last_backup :: "int option"
  svc_error :: "string option"

record AgentHealth =
  agent_status :: string
  response_time :: "int option"
  last_check :: int
  endpoint_available :: bool
  agent_error :: "string option"

text \<open>An absent property (\<open>undefined\<close>) of the infrastructure object is \<open>None\<close>.\<close>

record Infrastructure =
  cpu_usage :: "real option"
  memory_usage :: "real option"
  disk_usage :: "real option"

record Alert =
  alert_type :: string
  severity :: string
  alert_service :: "string option"
  alert_agent :: "string option"
  alert_resource :: "string option"
  alert_message :: string
  alert_timestamp :: int

text \<open>
  \<open>services\<close> and \<open>agents\<close> are JavaScript objects used as dictionaries; they are
  association lists in insertion order, which is the order of \<open>Object.entries\<close> and
  \<open>Object.values\<close>.
\<close>

record HealthResults =
  hr_timestamp :: int
  overall_status :: string
  services :: "(string \<times> ServiceHealth) list"
  agents :: "(string \<times> AgentHealth) list"
  infrastructure :: Infrastructure
  alerts :: "Alert list"
  hr_error :: "string option"

section \<open>Health aggregation and scoring\<close>

definition Object_values :: "(string \<times> 'a) list \<Rightarrow> 'a list" where
  "Object_values obj = map snd obj"

text \<open>\<open>evaluateOverallHealth(healthResults)\<close>\<close>

definition evaluateOverallHealth :: "HealthResults \<Rightarrow> string" where
  "evaluateOverallHealth healthResults =
     (let unhealthyServices =
            length (filter (\<lambda>s. svc_status s = ''unhealthy'') (Object_values (services healthResults)));
          unhealthyAgents =
            length (filter (\<lambda>a. agent_status a = ''unhealthy'') (Object_values (agents healthResults)));
          criticalAlerts =
            length (filter (\<lambda>a. severity a = ''critical'') (alerts healthResults))
      in if criticalAlerts > 0 \<or> unhealthyServices > 2 then ''critical''
         else if unhealthyServices > 0 \<or> unhealthyAgents > 3 then ''degraded''
         else if unhealthyAgents > 0 then ''warning''
         else ''healthy'')"

text \<open>
  \<open>calculateHealthScore(healthCheck)\<close>; the argument is \<open>None\<close> when no health check
  has been stored yet (\<open>if (!healthCheck) return 0\<close>).
\<close>

definition calculateHealthScore :: "HealthResults option \<Rightarrow> int" where
  "calculateHealthScore healthCheck =
     (case healthCheck of
        None \<Rightarrow> 0
      | Some hc \<Rightarrow>
          (let score0 = (100::int);
               unhealthyServices =
                 int (length (filter (\<lambda>s. svc_status s = ''unhealthy'') (Object_values (services hc))));
               score1 = score0 - unhealthyServices * 10;
               unhealthyAgents =
                 int (length (filter (\<lambda>a. agent_status a = ''unhealthy'') (Object_values (agents hc))));
               score2 = score1 - unhealthyAgents * 5;
               criticalAlerts =
                 int (length (filter (\<lambda>a. severity a = ''critical'') (alerts hc)));
               score3 = score2 - criticalAlerts * 15
           in max 0 score3))"

section \<open>State, external calls and control flow\<close>

text \<open>
  A JavaScript value as far as its truthiness is concerned (the values of the deployment
  configuration object).
\<close>

datatype jsval = JUndefined | JNull | JBool bool | JNum real | JStr string | JObj

fun truthy :: "jsval \<Rightarrow> bool" where
  "truthy JUndefined = False"
| "truthy JNull = False"
| "truthy (JBool b) = b"
| "truthy (JNum n) = (n \<noteq> 0)"
| "truthy (JStr s) = (s \<noteq> [])"
| "truthy JObj = True"

text \<open>
  Everything the class reaches outside itself is an external call: the file system, the
  shell, the network, the mail transport, and the methods whose bodies belong to the
  deployment at hand. The methods \<open>seedInitialData\<close>, \<open>deployService\<close>,
  \<open>runIntegrationTests\<close>, \<open>verifySystemHealth\<close>, \<open>activateProduction\<close> and the five
  agent steps only log in this file (they are its placeholder implementations), and the
  methods \<open>checkVoiceEngineHealth\<close> ... \<open>checkLegalServicesHealth\<close>,
  \<open>checkInfrastructureHealth\<close>, \<open>getAPIMetrics\<close>, \<open>getBusinessMetrics\<close> and
  \<open>sendWhatsAppAlert\<close> are called but not defined in it; all of them are external calls
  whose outcome the environment decides. The placeholder bodies are the environment in
  which these calls never fail.
\<close>

type_synonym payload = string

datatype ext_call =
    WriteFile string
  | Exec string
  | SeedInitialData
  | DeployService string
  | RunIntegrationTests
  | VerifySystemHealth
  | ActivateProduction
  | LoadAgentConfig string
  | DeployAgentService string
  | ConfigureAgentEndpoints string
  | TestAgentDeployment string
  | UpdateAgentStatus string string
  | Fetch string
  | CheckService string
  | CheckInfrastructure
  | GetSystemMetrics
  | GetAgentMetrics
  | GetAPIMetrics
  | GetBusinessMetrics
  | SendMail Alert
  | SendWhatsApp Alert

text \<open>
  The environment of one run: \<open>fails c\<close> is the message of the error that the call \<open>c\<close>
  throws (its promise rejects), \<open>takes c\<close> the time the wall clock moves while it is
  awaited, and the remaining fields are the values that successful calls return.
  \<open>toISOString\<close> and \<open>num_str\<close> are the language's date and number formatting.
\<close>

record ext =
  process_env :: "string \<rightharpoonup> string"
  fails :: "ext_call \<Rightarrow> string option"
  takes :: "ext_call \<Rightarrow> int"
  fetch_ok :: "string \<Rightarrow> bool"
  service_probe :: "string \<Rightarrow> ServiceHealth"
  infra_probe :: Infrastructure
  metric_reading :: "ext_call \<Rightarrow> payload"
  toISOString :: "int \<Rightarrow> string"
  num_str :: "real \<Rightarrow> string"

record Metrics =
  m_timestamp :: int
  m_system :: payload
  m_agents :: payload
  m_api :: payload
  m_business :: payload

text \<open>The map \<open>this.systemHealth\<close>; a key that was never set is \<open>None\<close>.\<close>

record SystemHealth =
  sh_overall_status :: "string option"
  sh_last_check :: "int option"
  sh_uptime_start :: "int option"
  sh_last_health_check :: "HealthResults option"

text \<open>
  The object's four maps, the wall clock \<open>now\<close>, and the external calls made so far.
  \<open>monitoringMetrics\<close> is a \<open>Map\<close> whose size and keys matter, so it is an association
  list with distinct keys in insertion order.
\<close>

record sys =
  deploymentStatus :: "string \<rightharpoonup> Deployment"
  systemHealth :: SystemHealth
  alertThresholds :: "string \<rightharpoonup> Threshold"
  monitoringMetrics :: "(int \<times> Metrics) list"
  now :: int
  calls :: "ext_call list"

text \<open>
  An \<open>async\<close> method is a state transformer whose result is \<open>Inl message\<close> when it
  throws and \<open>Inr value\<close> when it returns.
\<close>

type_synonym 'a action = "sys \<Rightarrow> (string + 'a) \<times> sys"

definition resolve :: "'a \<Rightarrow> 'a action" where
  "resolve x s = (Inr x, s)"

definition reject :: "string \<Rightarrow> 'a action" where
  "reject e s = (Inl e, s)"

definition then_do :: "'a action \<Rightarrow> ('a \<Rightarrow> 'b action) \<Rightarrow> 'b action" where
  "then_do m f s = (case m s of (Inl e, s') \<Rightarrow> (Inl e, s') | (Inr x, s') \<Rightarrow> f x s')"

definition try_catch :: "'a action \<Rightarrow> (string \<Rightarrow> 'a action) \<Rightarrow> 'a action" where
  "try_catch m handler s = (case m s of (Inl e, s') \<Rightarrow> handler e s' | (Inr x, s') \<Rightarrow> (Inr x, s'))"

text \<open>\<open>for (const x of xs) { acc = await body(x, acc) }\<close>\<close>

fun for_of :: "'a list \<Rightarrow> ('a \<Rightarrow> 'b \<Rightarrow> 'b action) \<Rightarrow> 'b \<Rightarrow> 'b action" where
  "for_of [] body acc = resolve acc"
| "for_of (x # xs) body acc = then_do (body x acc) (for_of xs body)"

definition Date_now :: "int action" where
  "Date_now s = (Inr (now s), s)"

definition call :: "ext \<Rightarrow> ext_call \<Rightarrow> unit action" where
  "call w c s =
     ((case fails w c of Some e \<Rightarrow> Inl e | None \<Rightarrow> Inr ()),
      s\<lparr>now := now s + takes w c, calls := calls s @ [c]\<rparr>)"

text \<open>Assignment \<open>obj[k] = v\<close> and \<open>Map.set(k, v)\<close>: an existing key keeps its place.\<close>

fun obj_set :: "'k \<Rightarrow> 'v \<Rightarrow> ('k \<times> 'v) list \<Rightarrow> ('k \<times> 'v) list" where
  "obj_set k v [] = [(k, v)]"
| "obj_set k v ((k', v') # rest) =
     (if k' = k then (k, v) # rest else (k', v') # obj_set k v rest)"

definition Map_delete :: "'k \<Rightarrow> ('k \<times> 'v) list \<Rightarrow> ('k \<times> 'v) list" where
  "Map_delete k m = filter (\<lambda>(k', v). k' \<noteq> k) m"

section \<open>Deployment orchestrator\<close>

definition TypeError :: string where
  "TypeError = ''TypeError: Cannot read properties of undefined''"

text \<open>\<open>updateDeploymentStep(deploymentId, stepName, status)\<close>\<close>

definition updateDeploymentStep :: "string \<Rightarrow> string \<Rightarrow> string \<Rightarrow> unit action" where
  "updateDeploymentStep deploymentId stepName status s =
     (case deploymentStatus s deploymentId of
        None \<Rightarrow> (Inr (), s)
      | Some deployment \<Rightarrow>
          (Inr (),
           s\<lparr>deploymentStatus := (deploymentStatus s)(deploymentId \<mapsto>
                deployment\<lparr>dep_steps := dep_steps deployment @
                  [\<lparr>step_name = stepName, step_status = status, step_timestamp = now s\<rparr>]\<rparr>)\<rparr>))"

definition requiredVars :: "string list" where
  "requiredVars =
     [''SUPABASE_URL'', ''SUPABASE_ANON_KEY'', ''CLAUDE_API_KEY'', ''ELEVENLABS_API_KEY'',
      ''OPENAI_API_KEY'', ''WHATSAPP_ACCESS_TOKEN'', ''FLUTTERWAVE_SECRET_KEY'',
      ''GMAIL_CLIENT_ID'']"

text \<open>\<open>!process.env[varName]\<close>: an environment variable is a string, falsy when absent or empty.\<close>

definition env_truthy :: "(string \<rightharpoonup> string) \<Rightarrow> string \<Rightarrow> bool" where
  "env_truthy e k = (case e k of None \<Rightarrow> False | Some v \<Rightarrow> v \<noteq> [])"

definition cfg_truthy :: "(string \<rightharpoonup> jsval) \<Rightarrow> string \<Rightarrow> bool" where
  "cfg_truthy c k = (case c k of None \<Rightarrow> False | Some v \<Rightarrow> truthy v)"

text \<open>
  \<open>setupEnvironment(environment, config)\<close>. The text written to the file is not
  modelled, only that the write happens and may fail.
\<close>

definition setupEnvironment :: "ext \<Rightarrow> string \<Rightarrow> (string \<rightharpoonup> jsval) \<Rightarrow> unit action" where
  "setupEnvironment w environment config =
     then_do Date_now (\<lambda>t.
       let envConfig =
             [''NODE_ENV'' \<mapsto> JStr environment,
              ''ODIA_VERSION'' \<mapsto> JStr ''1.0.0'',
              ''DEPLOYMENT_TIME'' \<mapsto> JStr (toISOString w t)] ++ config
       in then_do
            (for_of requiredVars
               (\<lambda>varName _.
                  if \<not> env_truthy (process_env w) varName \<and> \<not> cfg_truthy envConfig varName
                  then reject (''Missing required environment variable: '' @ varName)
                  else resolve ())
               ())
            (\<lambda>_. call w (WriteFile ''.env.deployment'')))"

definition executeCommand :: "ext \<Rightarrow> string \<Rightarrow> unit action" where
  "executeCommand w command = call w (Exec command)"

definition seedInitialData :: "ext \<Rightarrow> unit action" where
  "seedInitialData w = call w SeedInitialData"

definition runDatabaseMigrations :: "ext \<Rightarrow> unit action" where
  "runDatabaseMigrations w =
     try_catch
       (then_do (executeCommand w ''npx supabase db reset --linked'') (\<lambda>_.
        then_do (executeCommand w ''npx supabase db push --linked'') (\<lambda>_.
        seedInitialData w)))
       (\<lambda>error. reject ''Database migration failed'')"

definition deployService :: "ext \<Rightarrow> string \<Rightarrow> unit action" where
  "deployService w serviceName = call w (DeployService serviceName)"

definition coreServices :: "string list" where
  "coreServices =
     [''voice-processing'', ''email-automation'', ''payment-processing'', ''legal-services'',
      ''business-intelligence'', ''whatsapp-integration'']"

definition deployCoreServices :: "ext \<Rightarrow> unit action" where
  "deployCoreServices w = for_of coreServices (\<lambda>service _. deployService w service) ()"

definition loadAgentConfig :: "ext \<Rightarrow> string \<Rightarrow> (string \<times> string) action" where
  "loadAgentConfig w agentId =
     then_do (call w (LoadAgentConfig agentId)) (\<lambda>_. resolve (agentId, ''Agent '' @ agentId))"

definition deployAgentService :: "ext \<Rightarrow> string \<Rightarrow> (string \<times> string) \<Rightarrow> unit action" where
  "deployAgentService w agentId config = call w (DeployAgentService agentId)"

definition configureAgentEndpoints :: "ext \<Rightarrow> string \<Rightarrow> (string \<times> string) \<Rightarrow> unit action" where
  "configureAgentEndpoints w agentId config = call w (ConfigureAgentEndpoints agentId)"

definition testAgentDeployment :: "ext \<Rightarrow> string \<Rightarrow> unit action" where
  "testAgentDeployment w agentId = call w (TestAgentDeployment agentId)"

definition updateAgentStatus :: "ext \<Rightarrow> string \<Rightarrow> string \<Rightarrow> unit action" where
  "updateAgentStatus w agentId status = call w (UpdateAgentStatus agentId status)"

definition deployAgent :: "ext \<Rightarrow> string \<Rightarrow> unit action" where
  "deployAgent w agentId =
     try_catch
       (then_do (loadAgentConfig w agentId) (\<lambda>agentConfig.
        then_do (deployAgentService w agentId agentConfig) (\<lambda>_.
        then_do (configureAgentEndpoints w agentId agentConfig) (\<lambda>_.
        then_do (testAgentDeployment w agentId) (\<lambda>_.
        updateAgentStatus w agentId ''deployed'')))))
       (\<lambda>error. reject (''Failed to deploy agent '' @ agentId @ '': '' @ error))"

definition agentRoster :: "string list" where
  "agentRoster =
     [''lexi-pro'', ''atlas-corporate'', ''miss-legal'', ''paymaster'', ''crossai-emergency'',
      ''miss-academic'', ''tech-support'', ''luxury-service'', ''med-assist'', ''edu-kids'',
      ''gov-connect'']"

definition deployAllAgents :: "ext \<Rightarrow> unit action" where
  "deployAllAgents w = for_of agentRoster (\<lambda>agentId _. deployAgent w agentId) ()"

definition runIntegrationTests :: "ext \<Rightarrow> unit action" where
  "runIntegrationTests w = call w RunIntegrationTests"

definition verifySystemHealth :: "ext \<Rightarrow> unit action" where
  "verifySystemHealth w = call w VerifySystemHealth"

definition activateProduction :: "ext \<Rightarrow> unit action" where
  "activateProduction w = call w ActivateProduction"

text \<open>
  \<open>sendDeploymentNotification\<close> builds a message from the job (a \<open>TypeError\<close> when the
  job does not exist) and logs it; nothing is sent.
\<close>

definition sendDeploymentNotification :: "string \<Rightarrow> string \<Rightarrow> string option \<Rightarrow> unit action" where
  "sendDeploymentNotification deploymentId status error s =
     (case deploymentStatus s deploymentId of
        None \<Rightarrow> (Inl TypeError, s)
      | Some deployment \<Rightarrow> (Inr (), s))"

text \<open>
  The three assignments that end the \<open>try\<close> block of \<open>executeFullDeployment\<close>, and the
  three of its \<open>catch\<close> block. Assigning to a property of \<open>undefined\<close> throws.
\<close>

definition mark_completed :: "string \<Rightarrow> unit action" where
  "mark_completed deploymentId s =
     (case deploymentStatus s deploymentId of
        None \<Rightarrow> (Inl TypeError, s)
      | Some deployment \<Rightarrow>
          (Inr (),
           s\<lparr>deploymentStatus := (deploymentStatus s)(deploymentId \<mapsto>
                deployment\<lparr>dep_status := ''completed'',
                            dep_completed_at := Some (now s),
                            dep_success := Some True\<rparr>)\<rparr>))"

definition mark_failed :: "string \<Rightarrow> string \<Rightarrow> unit action" where
  "mark_failed deploymentId error s =
     (case deploymentStatus s deploymentId of
        None \<Rightarrow> (Inl TypeError, s)
      | Some deployment \<Rightarrow>
          (Inr (),
           s\<lparr>deploymentStatus := (deploymentStatus s)(deploymentId \<mapsto>
                deployment\<lparr>dep_status := ''failed'',
                            dep_error := Some error,
                            dep_failed_at := Some (now s)\<rparr>)\<rparr>))"

text \<open>\<open>executeFullDeployment(deploymentId, environment, config)\<close>\<close>

definition executeFullDeployment ::
  "ext \<Rightarrow> string \<Rightarrow> string \<Rightarrow> (string \<rightharpoonup> jsval) \<Rightarrow> unit action" where
  "executeFullDeployment w deploymentId environment config =
     try_catch
       (then_do (updateDeploymentStep deploymentId ''Environment Setup'' ''running'') (\<lambda>_.
        then_do (setupEnvironment w environment config) (\<lambda>_.
        then_do (updateDeploymentStep deploymentId ''Environment Setup'' ''completed'') (\<lambda>_.
        then_do (updateDeploymentStep deploymentId ''Database Migration'' ''running'') (\<lambda>_.
        then_do (runDatabaseMigrations w) (\<lambda>_.
        then_do (updateDeploymentStep deploymentId ''Database Migration'' ''completed'') (\<lambda>_.
        then_do (updateDeploymentStep deploymentId ''Core Services'' ''running'') (\<lambda>_.
        then_do (deployCoreServices w) (\<lambda>_.
        then_do (updateDeploymentStep deploymentId ''Core Services'' ''completed'') (\<lambda>_.
        then_do (updateDeploymentStep deploymentId ''AI Agents'' ''running'') (\<lambda>_.
        then_do (deployAllAgents w) (\<lambda>_.
        then_do (updateDeploymentStep deploymentId ''AI Agents'' ''completed'') (\<lambda>_.
        then_do (updateDeploymentStep deploymentId ''Integration Testing'' ''running'') (\<lambda>_.
        then_do (runIntegrationTests w) (\<lambda>_.
        then_do (updateDeploymentStep deploymentId ''Integration Testing'' ''completed'') (\<lambda>_.
        then_do (updateDeploymentStep deploymentId ''Health Verification'' ''running'') (\<lambda>_.
        then_do (verifySystemHealth w) (\<lambda>_.
        then_do (updateDeploymentStep deploymentId ''Health Verification'' ''completed'') (\<lambda>_.
        then_do (updateDeploymentStep deploymentId ''Production Activation'' ''running'') (\<lambda>_.
        then_do (activateProduction w) (\<lambda>_.
        then_do (updateDeploymentStep deploymentId ''Production Activation'' ''completed'') (\<lambda>_.
        then_do (mark_completed deploymentId) (\<lambda>_.
        sendDeploymentNotification deploymentId ''success'' None)))))))))))))))))))))))
       (\<lambda>error.
          then_do (mark_failed deploymentId error) (\<lambda>_.
          sendDeploymentNotification deploymentId ''failed'' (Some error)))"

section \<open>Health monitoring\<close>

text \<open>\<open>initializeMonitoring()\<close>\<close>

definition initializeMonitoring :: "sys \<Rightarrow> sys" where
  "initializeMonitoring s =
     s\<lparr>alertThresholds := (alertThresholds s)
          (''response_time'' \<mapsto> \<lparr>warning = 2000, critical = 5000\<rparr>,
           ''error_rate'' \<mapsto> \<lparr>warning = 5 / 100, critical = 1 / 10\<rparr>,
           ''cpu_usage'' \<mapsto> \<lparr>warning = 70, critical = 85\<rparr>,
           ''memory_usage'' \<mapsto> \<lparr>warning = 80, critical = 90\<rparr>,
           ''disk_usage'' \<mapsto> \<lparr>warning = 85, critical = 95\<rparr>),
       systemHealth := (systemHealth s)
          \<lparr>sh_overall_status := Some ''healthy'',
           sh_last_check := Some (now s),
           sh_uptime_start := Some (now s)\<rparr>\<rparr>"

text \<open>
  The state after the constructor ran at time \<open>t\<close>: four empty maps, then
  \<open>initializeMonitoring\<close>. (Registering the routes, the schedules and the mail
  transport does not touch the four maps.)
\<close>

definition constructed :: "int \<Rightarrow> sys" where
  "constructed t =
     initializeMonitoring
       \<lparr>deploymentStatus = Map.empty,
        systemHealth = \<lparr>sh_overall_status = None, sh_last_check = None,
                        sh_uptime_start = None, sh_last_health_check = None\<rparr>,
        alertThresholds = Map.empty,
        monitoringMetrics = [],
        now = t,
        calls = []\<rparr>"

text \<open>The job object that \<open>deployFullSystem\<close> stores before it starts the pipeline.\<close>

definition created_deployment :: "int \<Rightarrow> string \<Rightarrow> Deployment" where
  "created_deployment t environment =
     \<lparr>dep_status = ''initializing'', dep_started_at = t, dep_environment = environment,
      dep_steps = [], dep_completed_at = None, dep_success = None, dep_error = None,
      dep_failed_at = None\<rparr>"

text \<open>Template-string rendering of a property that may be \<open>undefined\<close> or \<open>null\<close>.\<close>

definition str_or :: "string \<Rightarrow> string option \<Rightarrow> string" where
  "str_or d v = (case v of None \<Rightarrow> d | Some x \<Rightarrow> x)"

definition agent_health_url :: "ext \<Rightarrow> string \<Rightarrow> string" where
  "agent_health_url w agentId =
     str_or ''undefined'' (process_env w ''API_BASE_URL'') @ ''/api/agents/'' @ agentId @ ''/health''"

text \<open>\<open>checkAgentHealth(agentId)\<close>: every error of the probe is caught and becomes a result.\<close>

definition checkAgentHealth :: "ext \<Rightarrow> string \<Rightarrow> AgentHealth action" where
  "checkAgentHealth w agentId =
     try_catch
       (then_do Date_now (\<lambda>startTime.
        then_do (call w (Fetch (agent_health_url w agentId))) (\<lambda>_.
        then_do Date_now (\<lambda>endTime.
          let responseTime = endTime - startTime;
              isHealthy = fetch_ok w (agent_health_url w agentId)
          in resolve
               \<lparr>agent_status = (if isHealthy then ''healthy'' else ''unhealthy''),
                response_time = Some responseTime,
                last_check = endTime,
                endpoint_available = isHealthy,
                agent_error = (if isHealthy then None else Some ''Endpoint not responding'')\<rparr>))))
       (\<lambda>error.
          then_do Date_now (\<lambda>t.
            resolve
              \<lparr>agent_status = ''unhealthy'',
               response_time = None,
               last_check = t,
               endpoint_available = False,
               agent_error = Some error\<rparr>))"

text \<open>\<open>checkAgentsHealth()\<close>: one probe after the other, each awaited before the next starts.\<close>

definition checkAgentsHealth :: "ext \<Rightarrow> (string \<times> AgentHealth) list action" where
  "checkAgentsHealth w =
     for_of agentRoster
       (\<lambda>agentId agents. then_do (checkAgentHealth w agentId) (\<lambda>h. resolve (obj_set agentId h agents)))
       []"

text \<open>\<open>checkDatabaseHealth()\<close>: the placeholder check, which reads the clock and answers healthy.\<close>

definition checkDatabaseHealth :: "ServiceHealth action" where
  "checkDatabaseHealth =
     try_catch
       (then_do Date_now (\<lambda>startTime.
        then_do Date_now (\<lambda>t1.
        then_do Date_now (\<lambda>t2.
          let queryTime = t1 - startTime
          in resolve
               \<lparr>svc_status = ''healthy'', svc_connection = Some ''active'',
                svc_query_time = Some queryTime, svc_tables_accessible = Some True,
                svc_last_backup = Some (t2 - 24 * 60 * 60 * 1000), svc_error = None\<rparr>))))
       (\<lambda>error.
          resolve
            \<lparr>svc_status = ''unhealthy'', svc_connection = Some ''failed'',
             svc_query_time = None, svc_tables_accessible = None,
             svc_last_backup = None, svc_error = Some error\<rparr>)"

text \<open>
  The six service checks that the class calls without defining them
  (\<open>checkVoiceEngineHealth\<close> and so on), named by the key their result is stored under.
\<close>

definition checkServiceHealth :: "ext \<Rightarrow> string \<Rightarrow> ServiceHealth action" where
  "checkServiceHealth w key =
     then_do (call w (CheckService key)) (\<lambda>_. resolve (service_probe w key))"

definition checkInfrastructureHealth :: "ext \<Rightarrow> Infrastructure action" where
  "checkInfrastructureHealth w =
     then_do (call w CheckInfrastructure) (\<lambda>_. resolve (infra_probe w))"

text \<open>\<open>checkServicesHealth()\<close>\<close>

definition checkServicesHealth :: "ext \<Rightarrow> (string \<times> ServiceHealth) list action" where
  "checkServicesHealth w =
     then_do checkDatabaseHealth (\<lambda>database.
     then_do (checkServiceHealth w ''voice_engine'') (\<lambda>voice_engine.
     then_do (checkServiceHealth w ''email_system'') (\<lambda>email_system.
     then_do (checkServiceHealth w ''payment_system'') (\<lambda>payment_system.
     then_do (checkServiceHealth w ''whatsapp_api'') (\<lambda>whatsapp_api.
     then_do (checkServiceHealth w ''knowledge_base'') (\<lambda>knowledge_base.
     then_do (checkServiceHealth w ''legal_services'') (\<lambda>legal_services.
       resolve
         [(''database'', database), (''voice_engine'', voice_engine),
          (''email_system'', email_system), (''payment_system'', payment_system),
          (''whatsapp_api'', whatsapp_api), (''knowledge_base'', knowledge_base),
          (''legal_services'', legal_services)])))))))"

section \<open>Alerting\<close>

text \<open>\<open>this.alertThresholds.get(key).critical\<close>, a \<open>TypeError\<close> when the key was never set.\<close>

definition threshold_critical :: "string \<Rightarrow> real action" where
  "threshold_critical key s =
     (case alertThresholds s key of
        None \<Rightarrow> (Inl TypeError, s)
      | Some t \<Rightarrow> (Inr (critical t), s))"

text \<open>\<open>x > y\<close> where \<open>x\<close> may be \<open>null\<close> (compared as 0) or \<open>undefined\<close> (never greater).\<close>

definition null_gt :: "int option \<Rightarrow> real \<Rightarrow> bool" where
  "null_gt x y = (case x of None \<Rightarrow> 0 > y | Some v \<Rightarrow> real_of_int v > y)"

definition undef_gt :: "real option \<Rightarrow> real \<Rightarrow> bool" where
  "undef_gt x y = (case x of None \<Rightarrow> False | Some v \<Rightarrow> v > y)"

definition num_or_null :: "ext \<Rightarrow> int option \<Rightarrow> string" where
  "num_or_null w x = (case x of None \<Rightarrow> ''null'' | Some v \<Rightarrow> num_str w (real_of_int v))"

definition num_or_undef :: "ext \<Rightarrow> real option \<Rightarrow> string" where
  "num_or_undef w x = (case x of None \<Rightarrow> ''undefined'' | Some v \<Rightarrow> num_str w v)"

text \<open>\<open>checkForAlerts(healthResults)\<close>\<close>

definition checkForAlerts :: "ext \<Rightarrow> HealthResults \<Rightarrow> Alert list action" where
  "checkForAlerts w healthResults =
     then_do
       (for_of (services healthResults)
          (\<lambda>(service, health) alerts.
             then_do Date_now (\<lambda>t.
               resolve
                 (if svc_status health = ''unhealthy''
                  then alerts @
                    [\<lparr>alert_type = ''service_down'', severity = ''critical'',
                      alert_service = Some service, alert_agent = None, alert_resource = None,
                      alert_message = ''Service '' @ service @ '' is unhealthy: '' @
                        str_or ''undefined'' (svc_error health),
                      alert_timestamp = t\<rparr>]
                  else alerts)))
          [])
       (\<lambda>alerts1.
     then_do
       (for_of (agents healthResults)
          (\<lambda>(agentId, health) alerts.
             then_do Date_now (\<lambda>t.
               let alerts' =
                     (if agent_status health = ''unhealthy''
                      then alerts @
                        [\<lparr>alert_type = ''agent_down'', severity = ''high'',
                          alert_service = None, alert_agent = Some agentId, alert_resource = None,
                          alert_message = ''Agent '' @ agentId @ '' is not responding: '' @
                            str_or ''null'' (agent_error health),
                          alert_timestamp = t\<rparr>]
                      else alerts)
               in then_do (threshold_critical ''response_time'') (\<lambda>crit.
                    resolve
                      (if null_gt (response_time health) crit
                       then alerts' @
                         [\<lparr>alert_type = ''performance_degradation'', severity = ''high'',
                           alert_service = None, alert_agent = Some agentId, alert_resource = None,
                           alert_message = ''Agent '' @ agentId @ '' response time is '' @
                             num_or_null w (response_time health) @ ''ms (critical threshold: '' @
                             num_str w crit @ ''ms)'',
                           alert_timestamp = t\<rparr>]
                       else alerts'))))
          alerts1)
       (\<lambda>alerts2.
     let infra = infrastructure healthResults
     in then_do (threshold_critical ''cpu_usage'') (\<lambda>crit.
        then_do Date_now (\<lambda>t.
          resolve
            (if undef_gt (cpu_usage infra) crit
             then alerts2 @
               [\<lparr>alert_type = ''resource_critical'', severity = ''critical'',
                 alert_service = None, alert_agent = None, alert_resource = Some ''cpu'',
                 alert_message = ''CPU usage is '' @ num_or_undef w (cpu_usage infra) @
                   ''% (critical threshold: '' @ num_str w crit @ ''%)'',
                 alert_timestamp = t\<rparr>]
             else alerts2)))))"

text \<open>
  \<open>sendEmailAlert(alert)\<close> hands a mail built from the alert to the mail transport;
  \<open>sendWhatsAppAlert(alert)\<close> is the second channel.
\<close>

definition sendEmailAlert :: "ext \<Rightarrow> Alert \<Rightarrow> unit action" where
  "sendEmailAlert w alert = call w (SendMail alert)"

definition sendWhatsAppAlert :: "ext \<Rightarrow> Alert \<Rightarrow> unit action" where
  "sendWhatsAppAlert w alert = call w (SendWhatsApp alert)"

text \<open>\<open>sendHealthAlerts(alerts)\<close>: one \<open>try\<close> around the whole loop.\<close>

definition sendHealthAlerts :: "ext \<Rightarrow> Alert list \<Rightarrow> unit action" where
  "sendHealthAlerts w alertList =
     try_catch
       (for_of alertList
          (\<lambda>alert _.
             then_do (sendEmailAlert w alert) (\<lambda>_.
               if severity alert = ''critical'' then sendWhatsAppAlert w alert else resolve ()))
          ())
       (\<lambda>error. resolve ())"

section \<open>The comprehensive health check\<close>

text \<open>
  \<open>performHealthChecks()\<close>. The method returns nothing; the model returns its local
  object \<open>healthResults\<close> as it is when the method ends, so that it can be spoken about.
  The stored snapshot is that same object, so the \<open>catch\<close> block would change the
  stored snapshot too if it ran after the snapshot was stored.
\<close>

definition health_check_caught :: "HealthResults \<Rightarrow> string \<Rightarrow> HealthResults" where
  "health_check_caught healthResults error =
     healthResults\<lparr>overall_status := ''unhealthy'', hr_error := Some error\<rparr>"

definition performHealthChecks :: "ext \<Rightarrow> HealthResults action" where
  "performHealthChecks w s0 =
     (let healthResults =
            \<lparr>hr_timestamp = now s0, overall_status = ''healthy'', services = [], agents = [],
             infrastructure = \<lparr>cpu_usage = None, memory_usage = None, disk_usage = None\<rparr>,
             alerts = [], hr_error = None\<rparr>
      in case checkServicesHealth w s0 of
           (Inl e, s1) \<Rightarrow> (Inr (health_check_caught healthResults e), s1)
         | (Inr svcs, s1) \<Rightarrow>
      let hr1 = healthResults\<lparr>services := svcs\<rparr>
      in case checkAgentsHealth w s1 of
           (Inl e, s2) \<Rightarrow> (Inr (health_check_caught hr1 e), s2)
         | (Inr ags, s2) \<Rightarrow>
      let hr2 = hr1\<lparr>agents := ags\<rparr>
      in case checkInfrastructureHealth w s2 of
           (Inl e, s3) \<Rightarrow> (Inr (health_check_caught hr2 e), s3)
         | (Inr infra, s3) \<Rightarrow>
      let hr3 = hr2\<lparr>infrastructure := infra\<rparr>;
          hr4 = hr3\<lparr>overall_status := evaluateOverallHealth hr3\<rparr>
      in case checkForAlerts w hr4 s3 of
           (Inl e, s4) \<Rightarrow> (Inr (health_check_caught hr4 e), s4)
         | (Inr als, s4) \<Rightarrow>
      let hr5 = hr4\<lparr>alerts := als\<rparr>;
          s5 = s4\<lparr>systemHealth := (systemHealth s4)
                 \<lparr>sh_last_health_check := Some hr5,
                  sh_overall_status := Some (overall_status hr5)\<rparr>\<rparr>
      in if length (alerts hr5) > 0
         then (case sendHealthAlerts w (alerts hr5) s5 of
                 (Inl e, s6) \<Rightarrow>
                   (Inr (health_check_caught hr5 e),
                    s6\<lparr>systemHealth := (systemHealth s6)
                         \<lparr>sh_last_health_check := Some (health_check_caught hr5 e)\<rparr>\<rparr>)
               | (Inr _, s6) \<Rightarrow> (Inr hr5, s6))
         else (Inr hr5, s5))"

section \<open>Metrics store\<close>

definition getSystemMetrics :: "ext \<Rightarrow> payload action" where
  "getSystemMetrics w = then_do (call w GetSystemMetrics) (\<lambda>_. resolve (metric_reading w GetSystemMetrics))"

definition getAgentMetrics :: "ext \<Rightarrow> payload action" where
  "getAgentMetrics w = then_do (call w GetAgentMetrics) (\<lambda>_. resolve (metric_reading w GetAgentMetrics))"

definition getAPIMetrics :: "ext \<Rightarrow> payload action" where
  "getAPIMetrics w = then_do (call w GetAPIMetrics) (\<lambda>_. resolve (metric_reading w GetAPIMetrics))"

definition getBusinessMetrics :: "ext \<Rightarrow> payload action" where
  "getBusinessMetrics w = then_do (call w GetBusinessMetrics) (\<lambda>_. resolve (metric_reading w GetBusinessMetrics))"

text \<open>\<open>Math.min(...keys)\<close>; with no argument the result is \<open>Infinity\<close>, here \<open>None\<close>.\<close>

fun Math_min :: "int list \<Rightarrow> int option" where
  "Math_min [] = None"
| "Math_min (k # ks) = Some (fold min ks k)"

text \<open>
  The last two statements of \<open>collectPerformanceMetrics\<close>: store under the key, then
  drop the smallest key when more than 1000 entries are held.
\<close>

definition store_metrics :: "int \<Rightarrow> Metrics \<Rightarrow> (int \<times> Metrics) list \<Rightarrow> (int \<times> Metrics) list" where
  "store_metrics key metrics store =
     (let store1 = obj_set key metrics store
      in if length store1 > 1000
         then (case Math_min (map fst store1) of
                 None \<Rightarrow> store1
               | Some oldestKey \<Rightarrow> Map_delete oldestKey store1)
         else store1)"

text \<open>\<open>collectPerformanceMetrics()\<close>\<close>

definition collectPerformanceMetrics :: "ext \<Rightarrow> unit action" where
  "collectPerformanceMetrics w =
     then_do Date_now (\<lambda>timestamp.
     then_do (getSystemMetrics w) (\<lambda>system.
     then_do (getAgentMetrics w) (\<lambda>agentMetrics.
     then_do (getAPIMetrics w) (\<lambda>api.
     then_do (getBusinessMetrics w) (\<lambda>business.
     then_do Date_now (\<lambda>key s.
       let metrics = \<lparr>m_timestamp = timestamp, m_system = system, m_agents = agentMetrics,
                      m_api = api, m_business = business\<rparr>
       in (Inr (), s\<lparr>monitoringMetrics := store_metrics key metrics (monitoringMetrics s)\<rparr>)))))))"

text \<open>
  The scheduled callback of \<open>startHealthChecks\<close> that collects metrics, and a sequence
  of its runs: each run has its own environment and starts at its own wall-clock time.
\<close>

definition metrics_tick :: "ext \<Rightarrow> unit action" where
  "metrics_tick w = try_catch (collectPerformanceMetrics w) (\<lambda>error. resolve ())"

fun metrics_ticks :: "(ext \<times> int) list \<Rightarrow> sys \<Rightarrow> sys" where
  "metrics_ticks [] s = s"
| "metrics_ticks ((w, t) # rest) s = metrics_ticks rest (snd (metrics_tick w (s\<lparr>now := t\<rparr>)))"

section \<open>Vocabulary of the properties\<close>

text \<open>The three counts that status and score are functions of, taken on the entries.\<close>

definition unhealthy_service_count :: "HealthResults \<Rightarrow> nat" where
  "unhealthy_service_count hr =
     length (filter (\<lambda>(name, h). svc_status h = ''unhealthy'') (services hr))"

definition unhealthy_agent_count :: "HealthResults \<Rightarrow> nat" where
  "unhealthy_agent_count hr =
     length (filter (\<lambda>(name, h). agent_status h = ''unhealthy'') (agents hr))"

definition critical_alert_count :: "HealthResults \<Rightarrow> nat" where
  "critical_alert_count hr = length (filter (\<lambda>a. severity a = ''critical'') (alerts hr))"

text \<open>Sample probe results and health-check results.\<close>

definition svc_up :: ServiceHealth where
  "svc_up = \<lparr>svc_status = ''healthy'', svc_connection = None, svc_query_time = None,
             svc_tables_accessible = None, svc_last_backup = None, svc_error = None\<rparr>"

definition svc_down :: ServiceHealth where
  "svc_down = \<lparr>svc_status = ''unhealthy'', svc_connection = None, svc_query_time = None,
               svc_tables_accessible = None, svc_last_backup = None,
               svc_error = Some ''connection refused''\<rparr>"

definition agent_up :: AgentHealth where
  "agent_up = \<lparr>agent_status = ''healthy'', response_time = Some 120, last_check = 0,
               endpoint_available = True, agent_error = None\<rparr>"

definition agent_down :: AgentHealth where
  "agent_down = \<lparr>agent_status = ''unhealthy'', response_time = None, last_check = 0,
                 endpoint_available = False, agent_error = Some ''timeout''\<rparr>"

definition no_infra :: Infrastructure where
  "no_infra = \<lparr>cpu_usage = None, memory_usage = None, disk_usage = None\<rparr>"

definition critical_alert :: Alert where
  "critical_alert =
     \<lparr>alert_type = ''service_down'', severity = ''critical'', alert_service = Some ''database'',
      alert_agent = None, alert_resource = None, alert_message = ''Service database is unhealthy'',
      alert_timestamp = 0\<rparr>"

definition sample_results ::
  "ServiceHealth list \<Rightarrow> AgentHealth list \<Rightarrow> Alert list \<Rightarrow> HealthResults" where
  "sample_results ss as als =
     \<lparr>hr_timestamp = 0, overall_status = ''healthy'',
      services = zip [''database'', ''voice_engine'', ''email_system'', ''payment_system''] ss,
      agents = zip [''lexi-pro'', ''atlas-corporate'', ''miss-legal'', ''paymaster'',
                    ''crossai-emergency''] as,
      infrastructure = no_infra, alerts = als, hr_error = None\<rparr>"


text \<open>
  Frame conditions of an action: it leaves the component \<open>g\<close> of the state alone; it
  does not move the clock backwards.
\<close>

definition preserves :: "(sys \<Rightarrow> 'b) \<Rightarrow> 'a action \<Rightarrow> bool" where
  "preserves g m = (\<forall>s. g (snd (m s)) = g s)"

definition clock_forward :: "'a action \<Rightarrow> bool" where
  "clock_forward m = (\<forall>s. now s \<le> now (snd (m s)))"

text \<open>
  The \<open>try\<close> block of \<open>executeFullDeployment\<close> as a loop over its seven stages, each
  bracketed by its two step entries; \<open>executeFullDeployment_stages\<close> shows that this
  is the same program.
\<close>

fun run_stages :: "string \<Rightarrow> (string \<times> unit action) list \<Rightarrow> unit action" where
  "run_stages deploymentId [] = resolve ()"
| "run_stages deploymentId ((stepName, stage) # rest) =
     then_do (updateDeploymentStep deploymentId stepName ''running'') (\<lambda>_.
     then_do stage (\<lambda>_.
     then_do (updateDeploymentStep deploymentId stepName ''completed'') (\<lambda>_.
     run_stages deploymentId rest)))"

definition pipeline :: "ext \<Rightarrow> string \<Rightarrow> (string \<rightharpoonup> jsval) \<Rightarrow> (string \<times> unit action) list" where
  "pipeline w environment config =
     [(''Environment Setup'', setupEnvironment w environment config),
      (''Database Migration'', runDatabaseMigrations w),
      (''Core Services'', deployCoreServices w),
      (''AI Agents'', deployAllAgents w),
      (''Integration Testing'', runIntegrationTests w),
      (''Health Verification'', verifySystemHealth w),
      (''Production Activation'', activateProduction w)]"

definition stage_names :: "string list" where
  "stage_names =
     [''Environment Setup'', ''Database Migration'', ''Core Services'', ''AI Agents'',
      ''Integration Testing'', ''Health Verification'', ''Production Activation'']"

definition step_tag :: "DeploymentStep \<Rightarrow> string \<times> string" where
  "step_tag st = (step_name st, step_status st)"

definition stage_steps :: "string \<Rightarrow> (string \<times> string) list" where
  "stage_steps n = [(n, ''running''), (n, ''completed'')]"

text \<open>
  The first stage that throws when the stages run from state \<open>s\<close>, with the message of
  its error; \<open>None\<close> when every stage returns.
\<close>

fun first_failure :: "string \<Rightarrow> (string \<times> unit action) list \<Rightarrow> sys \<Rightarrow> (string \<times> string) option" where
  "first_failure deploymentId [] s = None"
| "first_failure deploymentId ((stepName, stage) # rest) s =
     (case stage (snd (updateDeploymentStep deploymentId stepName ''running'' s)) of
        (Inl e, s') \<Rightarrow> Some (stepName, e)
      | (Inr _, s') \<Rightarrow>
          first_failure deploymentId rest
            (snd (updateDeploymentStep deploymentId stepName ''completed'' s')))"

text \<open>The required keys that the validation of \<open>setupEnvironment\<close> finds missing, in its order.\<close>

definition missing_vars :: "ext \<Rightarrow> (string \<rightharpoonup> jsval) \<Rightarrow> string list" where
  "missing_vars w config =
     filter (\<lambda>v. \<not> env_truthy (process_env w) v \<and> \<not> cfg_truthy config v) requiredVars"

text \<open>
  Sample environments: \<open>calm\<close> has every required variable set, and in it every
  external call succeeds at once; the others change one thing about their argument.
\<close>

definition calm :: ext where
  "calm =
     \<lparr>process_env =
        map_of ((''API_BASE_URL'', ''http://localhost:3000'') #
                map (\<lambda>k. (k, ''configured'')) requiredVars),
      fails = (\<lambda>c. None),
      takes = (\<lambda>c. 0),
      fetch_ok = (\<lambda>url. True),
      service_probe = (\<lambda>key. svc_up),
      infra_probe = no_infra,
      metric_reading = (\<lambda>c. ''{}''),
      toISOString = (\<lambda>t. ''1970-01-01T00:00:00.000Z''),
      num_str = (\<lambda>x. ''0'')\<rparr>"

definition failing :: "ext_call \<Rightarrow> string \<Rightarrow> ext \<Rightarrow> ext" where
  "failing c e w = w\<lparr>fails := (fails w)(c := Some e)\<rparr>"

definition taking :: "int \<Rightarrow> ext \<Rightarrow> ext" where
  "taking ms w = w\<lparr>takes := (\<lambda>c. ms)\<rparr>"

definition unset :: "string \<Rightarrow> ext \<Rightarrow> ext" where
  "unset k w = w\<lparr>process_env := (process_env w)(k := None)\<rparr>"

definition db_down :: ext where
  "db_down = failing (Exec ''npx supabase db push --linked'') ''exit status 1'' calm"

definition core_down :: ext where
  "core_down = failing (DeployService ''payment-processing'') ''rollout timed out'' calm"

text \<open>The state right after \<open>deployFullSystem\<close> registered a job at time 1000.\<close>

definition one_job :: sys where
  "one_job =
     (constructed 1000)\<lparr>deploymentStatus := [''deploy_1000'' \<mapsto> created_deployment 1000 ''production'']\<rparr>"


definition no_config :: "string \<rightharpoonup> jsval" where
  "no_config = Map.empty"

text \<open>
  Dispatch of alerts: the channel calls that a full dispatch of one alert makes, whether
  all of them succeed, and the part of a sequence of calls up to and including its first
  failing call.
\<close>

definition alert_calls :: "Alert \<Rightarrow> ext_call list" where
  "alert_calls a = SendMail a # (if severity a = ''critical'' then [SendWhatsApp a] else [])"

definition dispatches :: "ext \<Rightarrow> Alert \<Rightarrow> bool" where
  "dispatches w a = list_all (\<lambda>c. fails w c = None) (alert_calls a)"

fun until_failure :: "ext \<Rightarrow> ext_call list \<Rightarrow> ext_call list" where
  "until_failure w [] = []"
| "until_failure w (c # cs) = c # (if fails w c = None then until_failure w cs else [])"

definition high_alert :: "string \<Rightarrow> Alert" where
  "high_alert agentId =
     \<lparr>alert_type = ''agent_down'', severity = ''high'', alert_service = None,
      alert_agent = Some agentId, alert_resource = None,
      alert_message = ''Agent '' @ agentId @ '' is not responding: timeout'',
      alert_timestamp = 0\<rparr>"

definition mail_down :: ext where
  "mail_down = failing (SendMail (high_alert ''paymaster'')) ''ECONNRESET'' calm"

text \<open>
  Agent probes: whether the probe of an agent finds it healthy, the time its request
  takes, the result of a probe started at time \<open>t\<close>, and the results of probing a list
  of agents one after the other from time \<open>t\<close>.
\<close>

definition probe_ok :: "ext \<Rightarrow> string \<Rightarrow> bool" where
  "probe_ok w agentId =
     (fails w (Fetch (agent_health_url w agentId)) = None \<and> fetch_ok w (agent_health_url w agentId))"

definition probe_ms :: "ext \<Rightarrow> string \<Rightarrow> int" where
  "probe_ms w agentId = takes w (Fetch (agent_health_url w agentId))"

definition probe_result :: "ext \<Rightarrow> string \<Rightarrow> int \<Rightarrow> AgentHealth" where
  "probe_result w agentId t =
     (case fails w (Fetch (agent_health_url w agentId)) of
        Some e \<Rightarrow>
          \<lparr>agent_status = ''unhealthy'', response_time = None,
           last_check = t + probe_ms w agentId, endpoint_available = False,
           agent_error = Some e\<rparr>
      | None \<Rightarrow>
          \<lparr>agent_status = (if fetch_ok w (agent_health_url w agentId) then ''healthy'' else ''unhealthy''),
           response_time = Some (probe_ms w agentId),
           last_check = t + probe_ms w agentId,
           endpoint_available = fetch_ok w (agent_health_url w agentId),
           agent_error = (if fetch_ok w (agent_health_url w agentId) then None
                          else Some ''Endpoint not responding'')\<rparr>)"

fun sweep :: "ext \<Rightarrow> string list \<Rightarrow> int \<Rightarrow> (string \<times> AgentHealth) list" where
  "sweep w [] t = []"
| "sweep w (agentId # rest) t =
     (agentId, probe_result w agentId t) # sweep w rest (t + probe_ms w agentId)"

definition slow_probes :: ext where
  "slow_probes =
     calm\<lparr>fails := (\<lambda>c. if c = Fetch ''http://localhost:3000/api/agents/miss-legal/health''
                          then Some ''network timeout'' else None),
          takes := (\<lambda>c. if c = Fetch ''http://localhost:3000/api/agents/miss-legal/health''
                          then 5000 else 3000)\<rparr>"

text \<open>
  The external calls of the sub-checks of the comprehensive health check, and the four
  documented values of the overall status.
\<close>

definition health_subchecks :: "ext_call list" where
  "health_subchecks =
     map CheckService [''voice_engine'', ''email_system'', ''payment_system'', ''whatsapp_api'',
                       ''knowledge_base'', ''legal_services'']
     @ [CheckInfrastructure]"

definition status_enum :: "string list" where
  "status_enum = [''healthy'', ''warning'', ''degraded'', ''critical'']"

definition voice_down :: ext where
  "voice_down = failing (CheckService ''voice_engine'') ''ECONNREFUSED'' calm"

text \<open>
  Metrics collection: the four readings one collection awaits, whether all of them succeed
  (then the sample is stored), the key the sample of a collection started at time \<open>t\<close> is
  stored under, the sample itself, and the keys stored by a sequence of scheduled runs.
\<close>

definition metric_calls :: "ext_call list" where
  "metric_calls = [GetSystemMetrics, GetAgentMetrics, GetAPIMetrics, GetBusinessMetrics]"

definition records_sample :: "ext \<Rightarrow> bool" where
  "records_sample w = list_all (\<lambda>c. fails w c = None) metric_calls"

definition metrics_key :: "ext \<Rightarrow> int \<Rightarrow> int" where
  "metrics_key w t = t + sum_list (map (takes w) metric_calls)"

definition sample_of :: "ext \<Rightarrow> int \<Rightarrow> Metrics" where
  "sample_of w t =
     \<lparr>m_timestamp = t, m_system = metric_reading w GetSystemMetrics,
      m_agents = metric_reading w GetAgentMetrics, m_api = metric_reading w GetAPIMetrics,
      m_business = metric_reading w GetBusinessMetrics\<rparr>"

definition recorded_keys :: "(ext \<times> int) list \<Rightarrow> int list" where
  "recorded_keys ticks =
     map (\<lambda>(w, t). metrics_key w t) (filter (\<lambda>(w, t). records_sample w) ticks)"

text \<open>
  \<open>newest_of H store\<close>: of the keys \<open>H\<close> recorded so far, the store holds the most
  recent ones. Its keys are distinct, at most 1000, and come from \<open>H\<close>; every recorded
  key that it no longer holds is older than every key it holds; and it has dropped a key
  only when it is full.
\<close>

definition newest_of :: "int set \<Rightarrow> (int \<times> Metrics) list \<Rightarrow> bool" where
  "newest_of H store =
     (distinct (map fst store) \<and> length store \<le> 1000 \<and> fst ` set store \<subseteq> H
      \<and> (\<forall>h \<in> H - fst ` set store. \<forall>k \<in> fst ` set store. h < k)
      \<and> (H - fst ` set store \<noteq> {} \<longrightarrow> length store = 1000))"

definition api_down :: ext where
  "api_down = failing GetAPIMetrics ''503 Service Unavailable'' calm"

definition full_store :: "(int \<times> Metrics) list" where
  "full_store = map (\<lambda>i. (int i, sample_of calm (int i))) [0..<1000]"

definition memory_exhausted :: HealthResults where
  "memory_exhausted =
     (sample_results [svc_up] [agent_up] [])
       \<lparr>infrastructure := \<lparr>cpu_usage = Some 40, memory_usage = Some 97, disk_usage = Some 99\<rparr>\<rparr>"

definition cpu_exhausted :: HealthResults where
  "cpu_exhausted =
     (sample_results [svc_up] [agent_up] [])
       \<lparr>infrastructure := \<lparr>cpu_usage = Some 97, memory_usage = Some 40, disk_usage = Some 40\<rparr>\<rparr>"

text \<open>
  An environment in which the wall clock is set back by 250 ms during every awaited call
  (and the database migration fails), and a state whose job already has two log entries.
\<close>

definition clock_back :: ext where
  "clock_back = taking (- 250) db_down"

definition earlier_steps :: "DeploymentStep list" where
  "earlier_steps =
     [\<lparr>step_name = ''Environment Setup'', step_status = ''running'', step_timestamp = 400\<rparr>,
      \<lparr>step_name = ''Environment Setup'', step_status = ''completed'', step_timestamp = 900\<rparr>]"

definition logged_job :: sys where
  "logged_job =
     (constructed 1000)\<lparr>deploymentStatus :=
        [''deploy_1000'' \<mapsto> (created_deployment 300 ''production'')\<lparr>dep_steps := earlier_steps\<rparr>]\<rparr>"

section \<open>Properties\<close>

subsection \<open>Overall status and health score\<close>

lemma count_filter_snd:
  "length (filter P (Object_values obj)) = length (filter (\<lambda>(k, v). P v) obj)"
  by (induction obj) (auto simp: Object_values_def)

text \<open>
  C1. For every health-check result, the status that \<open>evaluateOverallHealth\<close> derives
  follows the four-level precedence: it is critical exactly when there is a
  critical-severity alert or more than 2 services are unhealthy; otherwise degraded when
  a service is unhealthy or more than 3 agents are; otherwise warning when an agent is
  unhealthy; otherwise healthy. With no critical alert, 3 unhealthy services give
  critical, and 1 unhealthy service with 4 unhealthy agents gives degraded.
\<close>

theorem evaluateOverallHealth_precedence:
  "evaluateOverallHealth hr =
     (if 0 < critical_alert_count hr \<or> 2 < unhealthy_service_count hr then ''critical''
      else if 0 < unhealthy_service_count hr \<or> 3 < unhealthy_agent_count hr then ''degraded''
      else if 0 < unhealthy_agent_count hr then ''warning''
      else ''healthy'')
   \<and> ((evaluateOverallHealth hr = ''critical'') =
        (0 < critical_alert_count hr \<or> 2 < unhealthy_service_count hr))
   \<and> (critical_alert_count hr = 0 \<and> unhealthy_service_count hr = 3 \<longrightarrow>
        evaluateOverallHealth hr = ''critical'')
   \<and> (critical_alert_count hr = 0 \<and> unhealthy_service_count hr = 1 \<and>
        unhealthy_agent_count hr = 4 \<longrightarrow> evaluateOverallHealth hr = ''degraded'')"
  by (simp add: evaluateOverallHealth_def count_filter_snd unhealthy_service_count_def
      unhealthy_agent_count_def critical_alert_count_def Let_def)

theorem evaluateOverallHealth_precedence_witness:
  "critical_alert_count (sample_results [svc_down, svc_down, svc_down, svc_up] [agent_up] []) = 0
   \<and> unhealthy_service_count (sample_results [svc_down, svc_down, svc_down, svc_up] [agent_up] []) = 3
   \<and> evaluateOverallHealth (sample_results [svc_down, svc_down, svc_down, svc_up] [agent_up] []) = ''critical''
   \<and> critical_alert_count (sample_results [svc_down, svc_up] [agent_down, agent_down, agent_down, agent_down, agent_up] []) = 0
   \<and> unhealthy_service_count (sample_results [svc_down, svc_up] [agent_down, agent_down, agent_down, agent_down, agent_up] []) = 1
   \<and> unhealthy_agent_count (sample_results [svc_down, svc_up] [agent_down, agent_down, agent_down, agent_down, agent_up] []) = 4
   \<and> evaluateOverallHealth (sample_results [svc_down, svc_up] [agent_down, agent_down, agent_down, agent_down, agent_up] []) = ''degraded''"
  using evaluateOverallHealth_precedence
          [of "sample_results [svc_down, svc_down, svc_down, svc_up] [agent_up] []"]
        evaluateOverallHealth_precedence
          [of "sample_results [svc_down, svc_up] [agent_down, agent_down, agent_down, agent_down, agent_up] []"]
  by (simp add: sample_results_def svc_down_def svc_up_def agent_up_def agent_down_def
      unhealthy_service_count_def unhealthy_agent_count_def critical_alert_count_def)

text \<open>
  C6. For every health-check result, the health score is 100 minus 10 per unhealthy
  service, 5 per unhealthy agent and 15 per critical-severity alert, and 0 when that
  would be negative; 2 unhealthy services, 1 unhealthy agent and 1 critical alert give 60.
\<close>

theorem calculateHealthScore_formula:
  "calculateHealthScore (Some hc) =
     (if 10 * int (unhealthy_service_count hc) + 5 * int (unhealthy_agent_count hc)
           + 15 * int (critical_alert_count hc) \<le> 100
      then 100 - 10 * int (unhealthy_service_count hc) - 5 * int (unhealthy_agent_count hc)
           - 15 * int (critical_alert_count hc)
      else 0)
   \<and> 0 \<le> calculateHealthScore (Some hc)
   \<and> (unhealthy_service_count hc = 2 \<and> unhealthy_agent_count hc = 1 \<and>
        critical_alert_count hc = 1 \<longrightarrow> calculateHealthScore (Some hc) = 60)"
  by (simp add: calculateHealthScore_def count_filter_snd unhealthy_service_count_def
      unhealthy_agent_count_def critical_alert_count_def Let_def max_def)

theorem calculateHealthScore_formula_witness:
  "unhealthy_service_count (sample_results [svc_down, svc_down, svc_up] [agent_down, agent_up] [critical_alert]) = 2
   \<and> unhealthy_agent_count (sample_results [svc_down, svc_down, svc_up] [agent_down, agent_up] [critical_alert]) = 1
   \<and> critical_alert_count (sample_results [svc_down, svc_down, svc_up] [agent_down, agent_up] [critical_alert]) = 1
   \<and> calculateHealthScore (Some (sample_results [svc_down, svc_down, svc_up] [agent_down, agent_up] [critical_alert])) = 60"
  using calculateHealthScore_formula
          [of "sample_results [svc_down, svc_down, svc_up] [agent_down, agent_up] [critical_alert]"]
  by (simp add: sample_results_def svc_down_def svc_up_def agent_up_def agent_down_def
      critical_alert_def unhealthy_service_count_def unhealthy_agent_count_def critical_alert_count_def)

subsection \<open>Control-flow laws and frame conditions\<close>

lemma then_do_resolve [simp]: "then_do (resolve x) f = f x"
  by (rule ext) (simp add: then_do_def resolve_def)

lemma then_do_reject [simp]: "then_do (reject e) f = reject e"
  by (rule ext) (simp add: then_do_def reject_def)

lemma then_do_assoc: "then_do (then_do m f) g = then_do m (\<lambda>x. then_do (f x) g)"
  by (rule ext) (simp add: then_do_def split: prod.splits sum.splits)

lemma executeFullDeployment_stages:
  "executeFullDeployment w deploymentId environment config =
     try_catch
       (then_do (run_stages deploymentId (pipeline w environment config)) (\<lambda>_.
        then_do (mark_completed deploymentId) (\<lambda>_.
        sendDeploymentNotification deploymentId ''success'' None)))
       (\<lambda>error.
          then_do (mark_failed deploymentId error) (\<lambda>_.
          sendDeploymentNotification deploymentId ''failed'' (Some error)))"
  by (simp add: executeFullDeployment_def pipeline_def then_do_assoc)

lemma preserves_resolve [simp]: "preserves g (resolve x)"
  by (simp add: preserves_def resolve_def)

lemma preserves_reject [simp]: "preserves g (reject e)"
  by (simp add: preserves_def reject_def)

lemma preserves_Date_now [simp]: "preserves g Date_now"
  by (simp add: preserves_def Date_now_def)

lemma preserves_then_do:
  "preserves g m \<Longrightarrow> (\<And>x. preserves g (f x)) \<Longrightarrow> preserves g (then_do m f)"
  by (auto simp: preserves_def then_do_def split: prod.splits sum.splits) (metis snd_conv)+

lemma preserves_try_catch:
  "preserves g m \<Longrightarrow> (\<And>e. preserves g (h e)) \<Longrightarrow> preserves g (try_catch m h)"
  by (auto simp: preserves_def try_catch_def split: prod.splits sum.splits) (metis snd_conv)+

lemma preserves_for_of:
  "(\<And>x acc. preserves g (body x acc)) \<Longrightarrow> preserves g (for_of xs body acc)"
  by (induction xs arbitrary: acc) (auto intro!: preserves_then_do)

lemma preserves_call:
  "(\<And>s t cs. g (s\<lparr>now := t, calls := cs\<rparr>) = g s) \<Longrightarrow> preserves g (call w c)"
  by (simp add: preserves_def call_def)

lemma clock_forward_resolve [simp]: "clock_forward (resolve x)"
  by (simp add: clock_forward_def resolve_def)

lemma clock_forward_reject [simp]: "clock_forward (reject e)"
  by (simp add: clock_forward_def reject_def)

lemma clock_forward_Date_now [simp]: "clock_forward Date_now"
  by (simp add: clock_forward_def Date_now_def)

lemma clock_forward_then_do:
  assumes "clock_forward m" and "\<And>x. clock_forward (f x)"
  shows "clock_forward (then_do m f)"
  unfolding clock_forward_def
proof
  fix s
  have m: "now s \<le> now (snd (m s))" using assms(1) by (simp add: clock_forward_def)
  show "now s \<le> now (snd (then_do m f s))"
  proof (cases "m s")
    case (Pair r s')
    show ?thesis
    proof (cases r)
      case (Inl e)
      with Pair m show ?thesis by (simp add: then_do_def)
    next
      case (Inr x)
      have "now s' \<le> now (snd (f x s'))" using assms(2) by (simp add: clock_forward_def)
      with Pair Inr m show ?thesis by (simp add: then_do_def)
    qed
  qed
qed

lemma clock_forward_try_catch:
  assumes "clock_forward m" and "\<And>e. clock_forward (h e)"
  shows "clock_forward (try_catch m h)"
  unfolding clock_forward_def
proof
  fix s
  have m: "now s \<le> now (snd (m s))" using assms(1) by (simp add: clock_forward_def)
  show "now s \<le> now (snd (try_catch m h s))"
  proof (cases "m s")
    case (Pair r s')
    show ?thesis
    proof (cases r)
      case (Inl e)
      have "now s' \<le> now (snd (h e s'))" using assms(2) by (simp add: clock_forward_def)
      with Pair Inl m show ?thesis by (simp add: try_catch_def)
    next
      case (Inr x)
      with Pair m show ?thesis by (simp add: try_catch_def)
    qed
  qed
qed

lemma clock_forward_for_of:
  "(\<And>x acc. clock_forward (body x acc)) \<Longrightarrow> clock_forward (for_of xs body acc)"
  by (induction xs arbitrary: acc) (auto intro!: clock_forward_then_do)

lemma clock_forward_call: "0 \<le> takes w c \<Longrightarrow> clock_forward (call w c)"
  by (simp add: clock_forward_def call_def)

lemma updateDeploymentStep_job:
  "deploymentStatus s deploymentId = Some d \<Longrightarrow>
   updateDeploymentStep deploymentId stepName status s =
     (Inr (), s\<lparr>deploymentStatus := (deploymentStatus s)(deploymentId \<mapsto>
        d\<lparr>dep_steps := dep_steps d @
          [\<lparr>step_name = stepName, step_status = status, step_timestamp = now s\<rparr>]\<rparr>)\<rparr>)"
  by (simp add: updateDeploymentStep_def)

lemma first_failure_name:
  "first_failure deploymentId stages s = Some (n, e) \<Longrightarrow> n \<in> fst ` set stages"
proof (induction deploymentId stages s rule: first_failure.induct)
  case (1 deploymentId s)
  then show ?case by simp
next
  case (2 deploymentId stepName stage rest s)
  then show ?case by (auto split: prod.splits sum.splits)
qed

lemma run_stages_log:
  assumes "\<forall>stage \<in> snd ` set stages. preserves deploymentStatus stage"
    and "distinct (map fst stages)"
    and "deploymentStatus s deploymentId = Some d"
  shows "\<exists>r s' new.
           run_stages deploymentId stages s = (r, s')
         \<and> deploymentStatus s' =
             (deploymentStatus s)(deploymentId \<mapsto> d\<lparr>dep_steps := dep_steps d @ new\<rparr>)
         \<and> (case first_failure deploymentId stages s of
               None \<Rightarrow> r = Inr () \<and> map step_tag new = concat (map stage_steps (map fst stages))
             | Some (n, e) \<Rightarrow> r = Inl e \<and>
                 map step_tag new =
                   concat (map stage_steps (takeWhile (\<lambda>m. m \<noteq> n) (map fst stages)))
                     @ [(n, ''running'')])
         \<and> ((\<forall>stage \<in> snd ` set stages. clock_forward stage) \<longrightarrow>
               sorted (map step_timestamp new) \<and> now s \<le> now s' \<and>
               (\<forall>x \<in> set new. now s \<le> step_timestamp x \<and> step_timestamp x \<le> now s'))"
  using assms
proof (induction deploymentId stages arbitrary: s d rule: run_stages.induct)
  case (1 deploymentId)
  show ?case
    by (rule exI[of _ "Inr ()"], rule exI[of _ s], rule exI[of _ "[]"])
       (use 1 in \<open>simp add: resolve_def fun_upd_idem\<close>)
next
  case (2 deploymentId n stage stages)
  note prems = "2.prems"
  define st1 where "st1 = \<lparr>step_name = n, step_status = ''running'', step_timestamp = now s\<rparr>"
  define d1 where "d1 = d\<lparr>dep_steps := dep_steps d @ [st1]\<rparr>"
  define s1 where "s1 = s\<lparr>deploymentStatus := (deploymentStatus s)(deploymentId \<mapsto> d1)\<rparr>"
  have u1: "updateDeploymentStep deploymentId n ''running'' s = (Inr (), s1)"
    using prems(3) by (simp add: updateDeploymentStep_job s1_def d1_def st1_def)
  obtain r2 s2 where st: "stage s1 = (r2, s2)" by (cases "stage s1")
  have pres: "preserves deploymentStatus stage" using prems(1) by simp
  have ds2: "deploymentStatus s2 = deploymentStatus s1"
    using pres st by (auto simp: preserves_def dest: spec[of _ s1])
  have now1: "now s1 = now s" by (simp add: s1_def)
  show ?case
  proof (cases r2)
    case (Inl e)
    have run: "run_stages deploymentId ((n, stage) # stages) s = (Inl e, s2)"
      using u1 st Inl by (simp add: then_do_def)
    have ff: "first_failure deploymentId ((n, stage) # stages) s = Some (n, e)"
      using u1 st Inl by simp
    have clk: "clock_forward stage \<Longrightarrow> now s \<le> now s2"
      using st now1 by (auto simp: clock_forward_def dest: spec[of _ s1])
    show ?thesis
      apply (rule exI[of _ "Inl e"], rule exI[of _ s2], rule exI[of _ "[st1]"])
      using clk
      by (simp add: run ff ds2 s1_def d1_def step_tag_def st1_def del: run_stages.simps first_failure.simps)
  next
    case (Inr u)
    define st2 where "st2 = \<lparr>step_name = n, step_status = ''completed'', step_timestamp = now s2\<rparr>"
    define d3 where "d3 = d1\<lparr>dep_steps := dep_steps d1 @ [st2]\<rparr>"
    define s3 where "s3 = s2\<lparr>deploymentStatus := (deploymentStatus s2)(deploymentId \<mapsto> d3)\<rparr>"
    have job2: "deploymentStatus s2 deploymentId = Some d1" by (simp add: ds2 s1_def)
    have u2: "updateDeploymentStep deploymentId n ''completed'' s2 = (Inr (), s3)"
      using job2 by (simp add: updateDeploymentStep_job s3_def d3_def st2_def)
    have job3: "deploymentStatus s3 deploymentId = Some d3" by (simp add: s3_def)
    have run: "run_stages deploymentId ((n, stage) # stages) s = run_stages deploymentId stages s3"
      using u1 st Inr u2 by (simp add: then_do_def)
    have ff: "first_failure deploymentId ((n, stage) # stages) s = first_failure deploymentId stages s3"
      using u1 st Inr u2 by simp
    have p1: "\<forall>stg \<in> snd ` set stages. preserves deploymentStatus stg"
      using prems(1) by simp
    have p2: "distinct (map fst stages)" using prems(2) by simp
    from "2.IH"[OF p1 p2 job3]
    obtain r s' new where
      ih1: "run_stages deploymentId stages s3 = (r, s')" and
      ih2: "deploymentStatus s' =
              (deploymentStatus s3)(deploymentId \<mapsto> d3\<lparr>dep_steps := dep_steps d3 @ new\<rparr>)" and
      ih3: "(case first_failure deploymentId stages s3 of
               None \<Rightarrow> r = Inr () \<and> map step_tag new = concat (map stage_steps (map fst stages))
             | Some (n, e) \<Rightarrow> r = Inl e \<and>
                 map step_tag new =
                   concat (map stage_steps (takeWhile (\<lambda>m. m \<noteq> n) (map fst stages)))
                     @ [(n, ''running'')])" and
      ih4: "(\<forall>stage \<in> snd ` set stages. clock_forward stage) \<longrightarrow>
               sorted (map step_timestamp new) \<and> now s3 \<le> now s' \<and>
               (\<forall>x \<in> set new. now s3 \<le> step_timestamp x \<and> step_timestamp x \<le> now s')"
      by blast
    have now3: "now s3 = now s2" by (simp add: s3_def)
    have ds: "deploymentStatus s' =
                (deploymentStatus s)(deploymentId \<mapsto>
                   d\<lparr>dep_steps := dep_steps d @ (st1 # st2 # new)\<rparr>)"
      by (simp add: ih2 s3_def ds2 s1_def d3_def d1_def)
    have tags: "(case first_failure deploymentId stages s3 of
               None \<Rightarrow> r = Inr () \<and>
                 map step_tag (st1 # st2 # new) = concat (map stage_steps (map fst ((n, stage) # stages)))
             | Some (m, e) \<Rightarrow> r = Inl e \<and>
                 map step_tag (st1 # st2 # new) =
                   concat (map stage_steps (takeWhile (\<lambda>k. k \<noteq> m) (map fst ((n, stage) # stages))))
                     @ [(m, ''running'')])"
    proof (cases "first_failure deploymentId stages s3")
      case None
      with ih3 show ?thesis by (simp add: stage_steps_def step_tag_def st1_def st2_def)
    next
      case (Some p)
      obtain m e where p: "p = (m, e)" by (cases p)
      have "m \<in> fst ` set stages" using first_failure_name Some p by blast
      then have "n \<noteq> m" using prems(2) by auto
      with ih3 Some p show ?thesis
        by (simp add: stage_steps_def step_tag_def st1_def st2_def)
    qed
    have times: "(\<forall>stage \<in> snd ` set ((n, stage) # stages). clock_forward stage) \<longrightarrow>
               sorted (map step_timestamp (st1 # st2 # new)) \<and> now s \<le> now s' \<and>
               (\<forall>x \<in> set (st1 # st2 # new). now s \<le> step_timestamp x \<and> step_timestamp x \<le> now s')"
    proof
      assume c: "\<forall>stage \<in> snd ` set ((n, stage) # stages). clock_forward stage"
      then have "clock_forward stage" by simp
      then have le12: "now s \<le> now s2"
        using st now1 by (auto simp: clock_forward_def dest: spec[of _ s1])
      from c ih4 have srt: "sorted (map step_timestamp new)" and le3: "now s3 \<le> now s'"
        and bnd: "\<forall>x \<in> set new. now s3 \<le> step_timestamp x \<and> step_timestamp x \<le> now s'"
        by auto
      show "sorted (map step_timestamp (st1 # st2 # new)) \<and> now s \<le> now s' \<and>
               (\<forall>x \<in> set (st1 # st2 # new). now s \<le> step_timestamp x \<and> step_timestamp x \<le> now s')"
        using le12 srt le3 bnd now3 by (auto simp: st1_def st2_def)
    qed
    show ?thesis
      apply (rule exI[of _ r], rule exI[of _ s'], rule exI[of _ "st1 # st2 # new"])
      using tags times by (simp add: run ih1 ds ff del: run_stages.simps first_failure.simps)
  qed
qed

lemmas preserves_intros =
  preserves_then_do preserves_try_catch preserves_for_of preserves_call
  preserves_resolve preserves_reject preserves_Date_now

lemmas clock_forward_intros =
  clock_forward_then_do clock_forward_try_catch clock_forward_for_of clock_forward_call
  clock_forward_resolve clock_forward_reject clock_forward_Date_now

lemmas stage_defs =
  setupEnvironment_def runDatabaseMigrations_def executeCommand_def seedInitialData_def
  deployCoreServices_def deployService_def deployAllAgents_def deployAgent_def
  loadAgentConfig_def deployAgentService_def configureAgentEndpoints_def
  testAgentDeployment_def updateAgentStatus_def runIntegrationTests_def
  verifySystemHealth_def activateProduction_def

lemma pipeline_names: "map fst (pipeline w environment config) = stage_names"
  by (simp add: pipeline_def stage_names_def)

lemma pipeline_preserves_jobs:
  "\<forall>stage \<in> snd ` set (pipeline w environment config). preserves deploymentStatus stage"
  by (auto simp: pipeline_def stage_defs Let_def intro!: preserves_intros)

lemma pipeline_clock_forward:
  "\<forall>c. 0 \<le> takes w c \<Longrightarrow>
   \<forall>stage \<in> snd ` set (pipeline w environment config). clock_forward stage"
  by (auto simp: pipeline_def stage_defs Let_def intro!: clock_forward_intros)

lemma executeFullDeployment_job:
  assumes job: "deploymentStatus s deploymentId = Some d"
  shows "\<exists>s' new.
           executeFullDeployment w deploymentId environment config s = (Inr (), s')
         \<and> calls s' = calls (snd (run_stages deploymentId (pipeline w environment config) s))
         \<and> (case first_failure deploymentId (pipeline w environment config) s of
               None \<Rightarrow>
                 deploymentStatus s' = (deploymentStatus s)(deploymentId \<mapsto>
                   d\<lparr>dep_steps := dep_steps d @ new, dep_status := ''completed'',
                     dep_completed_at := Some (now s'), dep_success := Some True\<rparr>)
                 \<and> map step_tag new = concat (map stage_steps stage_names)
             | Some (n, e) \<Rightarrow>
                 deploymentStatus s' = (deploymentStatus s)(deploymentId \<mapsto>
                   d\<lparr>dep_steps := dep_steps d @ new, dep_status := ''failed'',
                     dep_error := Some e, dep_failed_at := Some (now s')\<rparr>)
                 \<and> map step_tag new =
                     concat (map stage_steps (takeWhile (\<lambda>m. m \<noteq> n) stage_names))
                       @ [(n, ''running'')])
         \<and> ((\<forall>c. 0 \<le> takes w c) \<longrightarrow>
               sorted (map step_timestamp new) \<and> now s \<le> now s' \<and>
               (\<forall>x \<in> set new. now s \<le> step_timestamp x \<and> step_timestamp x \<le> now s'))"
proof -
  have dist: "distinct (map fst (pipeline w environment config))"
    by (simp add: pipeline_names stage_names_def)
  from run_stages_log[OF pipeline_preserves_jobs dist job]
  obtain r s1 new where
    run: "run_stages deploymentId (pipeline w environment config) s = (r, s1)" and
    ds: "deploymentStatus s1 =
           (deploymentStatus s)(deploymentId \<mapsto> d\<lparr>dep_steps := dep_steps d @ new\<rparr>)" and
    tags: "(case first_failure deploymentId (pipeline w environment config) s of
               None \<Rightarrow> r = Inr () \<and> map step_tag new = concat (map stage_steps stage_names)
             | Some (n, e) \<Rightarrow> r = Inl e \<and>
                 map step_tag new =
                   concat (map stage_steps (takeWhile (\<lambda>m. m \<noteq> n) stage_names))
                     @ [(n, ''running'')])" and
    times: "(\<forall>stage \<in> snd ` set (pipeline w environment config). clock_forward stage) \<longrightarrow>
               sorted (map step_timestamp new) \<and> now s \<le> now s1 \<and>
               (\<forall>x \<in> set new. now s \<le> step_timestamp x \<and> step_timestamp x \<le> now s1)"
    unfolding pipeline_names by blast
  have job1: "deploymentStatus s1 deploymentId = Some (d\<lparr>dep_steps := dep_steps d @ new\<rparr>)"
    by (simp add: ds)
  have times': "(\<forall>c. 0 \<le> takes w c) \<longrightarrow>
               sorted (map step_timestamp new) \<and> now s \<le> now s1 \<and>
               (\<forall>x \<in> set new. now s \<le> step_timestamp x \<and> step_timestamp x \<le> now s1)"
    using times pipeline_clock_forward by blast
  show ?thesis
  proof (cases "first_failure deploymentId (pipeline w environment config) s")
    case None
    with tags have r: "r = Inr ()" by simp
    define s' where "s' = s1\<lparr>deploymentStatus := (deploymentStatus s1)(deploymentId \<mapsto>
        d\<lparr>dep_steps := dep_steps d @ new, dep_status := ''completed'',
          dep_completed_at := Some (now s1), dep_success := Some True\<rparr>)\<rparr>"
    have ex: "executeFullDeployment w deploymentId environment config s = (Inr (), s')"
      using run r job1
      by (simp add: executeFullDeployment_stages try_catch_def then_do_def mark_completed_def
            sendDeploymentNotification_def s'_def)
    show ?thesis
      apply (rule exI[of _ s'], rule exI[of _ new])
      using tags times' None by (simp add: ex run s'_def ds)
  next
    case (Some p)
    obtain n e where p: "p = (n, e)" by (cases p)
    with tags Some have r: "r = Inl e" by simp
    define s' where "s' = s1\<lparr>deploymentStatus := (deploymentStatus s1)(deploymentId \<mapsto>
        d\<lparr>dep_steps := dep_steps d @ new, dep_status := ''failed'',
          dep_error := Some e, dep_failed_at := Some (now s1)\<rparr>)\<rparr>"
    have ex: "executeFullDeployment w deploymentId environment config s = (Inr (), s')"
      using run r job1
      by (simp add: executeFullDeployment_stages try_catch_def then_do_def mark_failed_def
            sendDeploymentNotification_def s'_def)
    show ?thesis
      apply (rule exI[of _ s'], rule exI[of _ new])
      using tags times' Some p by (simp add: ex run s'_def ds)
  qed
qed

subsection \<open>Environment setup and the sample environments\<close>

lemma for_of_check:
  "for_of xs (\<lambda>x _. if P x then reject (msg x) else resolve ()) () s =
     (case filter P xs of [] \<Rightarrow> (Inr (), s) | k # _ \<Rightarrow> (Inl (msg k), s))"
  by (induction xs) (simp_all add: resolve_def reject_def)

lemma envConfig_required:
  "v \<in> set requiredVars \<Longrightarrow>
   cfg_truthy ([''NODE_ENV'' \<mapsto> a, ''ODIA_VERSION'' \<mapsto> b, ''DEPLOYMENT_TIME'' \<mapsto> c] ++ config) v
     = cfg_truthy config v"
  by (auto simp: requiredVars_def cfg_truthy_def map_add_def split: option.splits)

lemma setupEnvironment_missing:
  assumes "filter (\<lambda>v. \<not> env_truthy (process_env w) v \<and> \<not> cfg_truthy config v) requiredVars = k # rest"
  shows "setupEnvironment w environment config s =
           (Inl (''Missing required environment variable: '' @ k), s)"
proof -
  have eq: "filter (\<lambda>v. \<not> env_truthy (process_env w) v \<and>
              \<not> cfg_truthy ([''NODE_ENV'' \<mapsto> a, ''ODIA_VERSION'' \<mapsto> b, ''DEPLOYMENT_TIME'' \<mapsto> c] ++ config) v) requiredVars
          = filter (\<lambda>v. \<not> env_truthy (process_env w) v \<and> \<not> cfg_truthy config v) requiredVars" for a b c
    by (rule filter_cong) (simp_all add: envConfig_required)
  show ?thesis
    unfolding setupEnvironment_def Let_def
    by (simp add: then_do_def Date_now_def for_of_check eq assms del: fun_upd_apply)
qed

lemma one_job_simps:
  "deploymentStatus one_job = [''deploy_1000'' \<mapsto> created_deployment 1000 ''production'']"
  "now one_job = 1000" "calls one_job = []"
  by (simp_all add: one_job_def constructed_def initializeMonitoring_def)

lemma calm_env: "v \<in> set requiredVars \<Longrightarrow> env_truthy (process_env calm) v"
  by (auto simp: calm_def requiredVars_def env_truthy_def)

lemma setupEnvironment_present:
  assumes "\<forall>v \<in> set requiredVars. env_truthy (process_env w) v"
  shows "setupEnvironment w environment config = call w (WriteFile ''.env.deployment'')"
proof
  fix s
  have "filter (\<lambda>v. \<not> env_truthy (process_env w) v \<and> \<not> cfg_truthy c v) requiredVars = []" for c
    using assms by (simp add: filter_empty_conv)
  then show "setupEnvironment w environment config s = call w (WriteFile ''.env.deployment'') s"
    unfolding setupEnvironment_def Let_def
    by (simp add: then_do_def Date_now_def for_of_check del: fun_upd_apply)
qed

lemma calm_simps:
  "fails calm = (\<lambda>c. None)" "takes calm = (\<lambda>c. 0)"
  by (simp_all add: calm_def)

lemma failing_simps:
  "fails (failing c e w) = (fails w)(c := Some e)"
  "takes (failing c e w) = takes w"
  "process_env (failing c e w) = process_env w"
  by (simp_all add: failing_def)

lemma db_down_env: "\<forall>v \<in> set requiredVars. env_truthy (process_env db_down) v"
  by (simp add: db_down_def failing_simps calm_env)

lemma core_down_env: "\<forall>v \<in> set requiredVars. env_truthy (process_env core_down) v"
  by (simp add: core_down_def failing_simps calm_env)

lemma db_down_simps:
  "fails db_down = (\<lambda>c. None)(Exec ''npx supabase db push --linked'' := Some ''exit status 1'')"
  "takes db_down = (\<lambda>c. 0)"
  by (simp_all add: db_down_def failing_simps calm_simps)

lemma core_down_simps:
  "fails core_down = (\<lambda>c. None)(DeployService ''payment-processing'' := Some ''rollout timed out'')"
  "takes core_down = (\<lambda>c. 0)"
  by (simp_all add: core_down_def failing_simps calm_simps)

lemma db_down_first_failure:
  "first_failure ''deploy_1000'' (pipeline db_down ''production'' Map.empty) one_job
     = Some (''Database Migration'', ''Database migration failed'')"
  by (simp add: pipeline_def setupEnvironment_present[OF db_down_env] one_job_simps
        runDatabaseMigrations_def executeCommand_def seedInitialData_def
        updateDeploymentStep_def then_do_def try_catch_def reject_def call_def
        db_down_simps)

lemma core_down_first_failure:
  "first_failure ''deploy_1000'' (pipeline core_down ''production'' Map.empty) one_job
     = Some (''Core Services'', ''rollout timed out'')"
  by (simp add: pipeline_def setupEnvironment_present[OF core_down_env] one_job_simps
        runDatabaseMigrations_def executeCommand_def seedInitialData_def
        deployCoreServices_def deployService_def coreServices_def
        updateDeploymentStep_def then_do_def try_catch_def reject_def resolve_def call_def
        core_down_simps)

lemma db_down_run:
  "executeFullDeployment db_down ''deploy_1000'' ''production'' Map.empty one_job =
     (Inr (),
      one_job\<lparr>deploymentStatus := [''deploy_1000'' \<mapsto>
          (created_deployment 1000 ''production'')
            \<lparr>dep_steps :=
               [\<lparr>step_name = ''Environment Setup'', step_status = ''running'', step_timestamp = 1000\<rparr>,
                \<lparr>step_name = ''Environment Setup'', step_status = ''completed'', step_timestamp = 1000\<rparr>,
                \<lparr>step_name = ''Database Migration'', step_status = ''running'', step_timestamp = 1000\<rparr>],
             dep_status := ''failed'',
             dep_error := Some ''Database migration failed'',
             dep_failed_at := Some 1000\<rparr>],
        now := 1000,
        calls := [WriteFile ''.env.deployment'', Exec ''npx supabase db reset --linked'',
                  Exec ''npx supabase db push --linked'']\<rparr>)"
  by (simp add: executeFullDeployment_def setupEnvironment_present[OF db_down_env] one_job_simps
        runDatabaseMigrations_def executeCommand_def seedInitialData_def
        updateDeploymentStep_def then_do_def try_catch_def reject_def resolve_def call_def
        mark_failed_def sendDeploymentNotification_def created_deployment_def
        db_down_simps)

lemma unset_simps:
  "process_env (unset k w) = (process_env w)(k := None)"
  by (simp add: unset_def)

subsection \<open>Deployment jobs\<close>

text \<open>A run in which nothing fails completes the job with the entries of all seven stages.\<close>

lemma calm_all: "\<forall>v \<in> set requiredVars. env_truthy (process_env calm) v"
  by (simp add: calm_env)

lemma calm_run_steps:
  "map step_tag (dep_steps (the (deploymentStatus
     (snd (executeFullDeployment calm ''deploy_1000'' ''production'' no_config one_job))
     ''deploy_1000''))) = concat (map stage_steps stage_names)"
  "dep_status (the (deploymentStatus
     (snd (executeFullDeployment calm ''deploy_1000'' ''production'' no_config one_job))
     ''deploy_1000'')) = ''completed''"
proof -
  have ff: "first_failure ''deploy_1000'' (pipeline calm ''production'' no_config) one_job = None"
    by (simp add: pipeline_def setupEnvironment_present[OF calm_all] one_job_simps
          runDatabaseMigrations_def executeCommand_def seedInitialData_def
          deployCoreServices_def deployService_def deployAllAgents_def deployAgent_def
          loadAgentConfig_def deployAgentService_def configureAgentEndpoints_def
          testAgentDeployment_def updateAgentStatus_def runIntegrationTests_def
          verifySystemHealth_def activateProduction_def
          agentRoster_def coreServices_def
          updateDeploymentStep_def then_do_def try_catch_def reject_def resolve_def call_def
          calm_simps)
  have job: "deploymentStatus one_job ''deploy_1000'' = Some (created_deployment 1000 ''production'')"
    by (simp add: one_job_simps)
  from executeFullDeployment_job[OF job, of calm "''production''" no_config, unfolded ff option.case]
  obtain s' new where
    ex: "executeFullDeployment calm ''deploy_1000'' ''production'' no_config one_job = (Inr (), s')" and
    ds: "deploymentStatus s' = (deploymentStatus one_job)(''deploy_1000'' \<mapsto>
                   (created_deployment 1000 ''production'')
                   \<lparr>dep_steps := dep_steps (created_deployment 1000 ''production'') @ new,
                     dep_status := ''completed'',
                     dep_completed_at := Some (now s'), dep_success := Some True\<rparr>)" and
    tags: "map step_tag new = concat (map stage_steps stage_names)"
    by (elim exE conjE) (rule that, assumption+)
  show "map step_tag (dep_steps (the (deploymentStatus
     (snd (executeFullDeployment calm ''deploy_1000'' ''production'' no_config one_job))
     ''deploy_1000''))) = concat (map stage_steps stage_names)"
    by (simp add: ex ds tags created_deployment_def)
  show "dep_status (the (deploymentStatus
     (snd (executeFullDeployment calm ''deploy_1000'' ''production'' no_config one_job))
     ''deploy_1000'')) = ''completed''"
    by (simp add: ex ds)
qed

text \<open>
  C3, as the code has it. When a stage of the pipeline throws, the job ends with status
  \<open>failed\<close> and the error's message; the entries added to its step log are the
  \<open>running\<close> and \<open>completed\<close> entries of the stages before the failing one and the
  \<open>running\<close> entry of the failing stage. No entry with status \<open>failed\<close> is written,
  and no entry of a later stage.
\<close>

theorem failed_stage_stops_pipeline:
  assumes "deploymentStatus s deploymentId = Some d"
    and "first_failure deploymentId (pipeline w environment config) s = Some (n, e)"
  shows "\<exists>s' d' new.
           executeFullDeployment w deploymentId environment config s = (Inr (), s')
         \<and> deploymentStatus s' deploymentId = Some d'
         \<and> dep_status d' = ''failed'' \<and> dep_error d' = Some e
         \<and> dep_steps d' = dep_steps d @ new
         \<and> map step_tag new =
             concat (map stage_steps (takeWhile (\<lambda>m. m \<noteq> n) stage_names)) @ [(n, ''running'')]
         \<and> (\<forall>st \<in> set new. step_status st \<noteq> ''failed'')
         \<and> (\<forall>st \<in> set new. step_name st = n \<or> step_name st \<in> set (takeWhile (\<lambda>m. m \<noteq> n) stage_names))"
proof -
  from executeFullDeployment_job[OF assms(1), of w environment config] assms(2)
  obtain s' new where
    ex: "executeFullDeployment w deploymentId environment config s = (Inr (), s')" and
    ds: "deploymentStatus s' = (deploymentStatus s)(deploymentId \<mapsto>
           d\<lparr>dep_steps := dep_steps d @ new, dep_status := ''failed'',
             dep_error := Some e, dep_failed_at := Some (now s')\<rparr>)" and
    tags: "map step_tag new =
             concat (map stage_steps (takeWhile (\<lambda>m. m \<noteq> n) stage_names)) @ [(n, ''running'')]"
    by auto
  have mem: "step_tag st \<in> set (concat (map stage_steps (takeWhile (\<lambda>m. m \<noteq> n) stage_names)) @ [(n, ''running'')])"
    if "st \<in> set new" for st
    using that tags by (metis image_eqI set_map)
  have nofail: "\<forall>st \<in> set new. step_status st \<noteq> ''failed''"
    using mem by (fastforce simp: step_tag_def stage_steps_def)
  have names: "\<forall>st \<in> set new. step_name st = n \<or> step_name st \<in> set (takeWhile (\<lambda>m. m \<noteq> n) stage_names)"
    using mem by (fastforce simp: step_tag_def stage_steps_def)
  show ?thesis
    apply (rule exI[of _ s'])
    apply (rule exI[of _ "d\<lparr>dep_steps := dep_steps d @ new, dep_status := ''failed'',
             dep_error := Some e, dep_failed_at := Some (now s')\<rparr>"])
    apply (rule exI[of _ new])
    using tags nofail names by (simp add: ex ds)
qed

theorem failed_stage_stops_pipeline_witness:
  "deploymentStatus one_job ''deploy_1000'' = Some (created_deployment 1000 ''production'')
   \<and> first_failure ''deploy_1000'' (pipeline core_down ''production'' Map.empty) one_job
        = Some (''Core Services'', ''rollout timed out'')
   \<and> (\<exists>s' d' new.
           executeFullDeployment core_down ''deploy_1000'' ''production'' Map.empty one_job = (Inr (), s')
         \<and> deploymentStatus s' ''deploy_1000'' = Some d'
         \<and> dep_status d' = ''failed'' \<and> dep_error d' = Some ''rollout timed out''
         \<and> dep_steps d' = dep_steps (created_deployment 1000 ''production'') @ new
         \<and> map step_tag new =
             concat (map stage_steps (takeWhile (\<lambda>m. m \<noteq> ''Core Services'') stage_names))
               @ [(''Core Services'', ''running'')]
         \<and> (\<forall>st \<in> set new. step_status st \<noteq> ''failed'')
         \<and> (\<forall>st \<in> set new. step_name st = ''Core Services'' \<or>
               step_name st \<in> set (takeWhile (\<lambda>m. m \<noteq> ''Core Services'') stage_names)))"
proof -
  have job: "deploymentStatus one_job ''deploy_1000'' = Some (created_deployment 1000 ''production'')"
    by (simp add: one_job_simps)
  show ?thesis
    using failed_stage_stops_pipeline[OF job core_down_first_failure] job core_down_first_failure
    by (intro conjI)
qed

text \<open>
  C3 as stated fails: when the database migration throws, the log of the failed job ends
  with the \<open>running\<close> entry of that stage and holds no \<open>failed\<close> entry.
\<close>

theorem failed_step_counterexample:
  "first_failure ''deploy_1000'' (pipeline db_down ''production'' no_config) one_job
     = Some (''Database Migration'', ''Database migration failed'')
   \<and> dep_status (the (deploymentStatus
        (snd (executeFullDeployment db_down ''deploy_1000'' ''production'' no_config one_job))
        ''deploy_1000'')) = ''failed''
   \<and> map step_tag (dep_steps (the (deploymentStatus
        (snd (executeFullDeployment db_down ''deploy_1000'' ''production'' no_config one_job))
        ''deploy_1000''))) =
       [(''Environment Setup'', ''running''), (''Environment Setup'', ''completed''),
        (''Database Migration'', ''running'')]
   \<and> ''failed'' \<notin> set (map step_status (dep_steps (the (deploymentStatus
        (snd (executeFullDeployment db_down ''deploy_1000'' ''production'' no_config one_job))
        ''deploy_1000''))))"
  by (simp add: no_config_def db_down_run db_down_first_failure step_tag_def)

text \<open>
  C7. When a required configuration key is absent from both the process environment and
  the supplied configuration, environment setup throws an error that names the first
  missing key of the required list; nothing later runs (the state differs from the
  initial one in the job alone, so no external call was made); the job is \<open>failed\<close> with
  that message, every other job is untouched, and \<open>executeFullDeployment\<close> returns
  normally.
\<close>

theorem missing_configuration_fails_job:
  assumes job: "deploymentStatus s deploymentId = Some d"
    and miss: "\<exists>v \<in> set requiredVars. process_env w v = None \<and> config v = None"
  shows "\<exists>k rest.
           missing_vars w config = k # rest
         \<and> k \<in> set requiredVars \<and> \<not> env_truthy (process_env w) k \<and> \<not> cfg_truthy config k
         \<and> fst (setupEnvironment w environment config s)
             = Inl (''Missing required environment variable: '' @ k)
         \<and> executeFullDeployment w deploymentId environment config s =
             (Inr (),
              s\<lparr>deploymentStatus := (deploymentStatus s)(deploymentId \<mapsto>
                  d\<lparr>dep_steps := dep_steps d @
                       [\<lparr>step_name = ''Environment Setup'', step_status = ''running'',
                         step_timestamp = now s\<rparr>],
                    dep_status := ''failed'',
                    dep_error := Some (''Missing required environment variable: '' @ k),
                    dep_failed_at := Some (now s)\<rparr>)\<rparr>)"
proof -
  from miss obtain v where v: "v \<in> set requiredVars" "process_env w v = None" "config v = None"
    by blast
  then have "v \<in> set (missing_vars w config)"
    by (simp add: missing_vars_def env_truthy_def cfg_truthy_def)
  then obtain k rest where kr: "missing_vars w config = k # rest"
    by (cases "missing_vars w config") auto
  then have "k \<in> set (missing_vars w config)" by simp
  then have k: "k \<in> set requiredVars" "\<not> env_truthy (process_env w) k" "\<not> cfg_truthy config k"
    by (simp_all add: missing_vars_def)
  have su: "setupEnvironment w environment config s0 =
              (Inl (''Missing required environment variable: '' @ k), s0)" for s0
    using kr by (simp add: missing_vars_def setupEnvironment_missing)
  have ex: "executeFullDeployment w deploymentId environment config s =
             (Inr (),
              s\<lparr>deploymentStatus := (deploymentStatus s)(deploymentId \<mapsto>
                  d\<lparr>dep_steps := dep_steps d @
                       [\<lparr>step_name = ''Environment Setup'', step_status = ''running'',
                         step_timestamp = now s\<rparr>],
                    dep_status := ''failed'',
                    dep_error := Some (''Missing required environment variable: '' @ k),
                    dep_failed_at := Some (now s)\<rparr>)\<rparr>)"
    using job
    by (simp add: executeFullDeployment_def try_catch_def then_do_def updateDeploymentStep_job su
          mark_failed_def sendDeploymentNotification_def)
  show ?thesis
    using kr k su ex by simp
qed

theorem missing_configuration_fails_job_witness:
  "deploymentStatus one_job ''deploy_1000'' = Some (created_deployment 1000 ''production'')
   \<and> (\<exists>v \<in> set requiredVars.
         process_env (unset ''OPENAI_API_KEY'' calm) v = None \<and> Map.empty v = (None :: jsval option))
   \<and> dep_status (the (deploymentStatus
        (snd (executeFullDeployment (unset ''OPENAI_API_KEY'' calm) ''deploy_1000'' ''production''
               Map.empty one_job)) ''deploy_1000'')) = ''failed''
   \<and> dep_error (the (deploymentStatus
        (snd (executeFullDeployment (unset ''OPENAI_API_KEY'' calm) ''deploy_1000'' ''production''
               Map.empty one_job)) ''deploy_1000''))
       = Some ''Missing required environment variable: OPENAI_API_KEY''"
proof -
  have job: "deploymentStatus one_job ''deploy_1000'' = Some (created_deployment 1000 ''production'')"
    by (simp add: one_job_simps)
  have miss: "\<exists>v \<in> set requiredVars.
         process_env (unset ''OPENAI_API_KEY'' calm) v = None \<and> Map.empty v = (None :: jsval option)"
    by (simp add: requiredVars_def unset_simps)
  have mv: "missing_vars (unset ''OPENAI_API_KEY'' calm) Map.empty = [''OPENAI_API_KEY'']"
    by (simp add: missing_vars_def requiredVars_def unset_simps calm_def env_truthy_def cfg_truthy_def)
  show ?thesis
    using missing_configuration_fails_job[OF job miss, of "''production''"] job miss
    by (auto simp: mv)
qed

subsection \<open>Alert dispatch\<close>

lemma until_failure_append:
  "until_failure w (xs @ ys) =
     (if list_all (\<lambda>c. fails w c = None) xs then xs @ until_failure w ys else until_failure w xs)"
  by (induction xs) auto

lemma until_failure_all: "list_all (\<lambda>c. fails w c = None) xs \<Longrightarrow> until_failure w xs = xs"
  by (induction xs) auto

lemma then_do_cases:
  "m s = (r, s1) \<Longrightarrow>
   then_do m f s = (case r of Inl e \<Rightarrow> (Inl e, s1) | Inr x \<Rightarrow> f x s1)"
  by (simp add: then_do_def)

lemma dispatch_one:
  "then_do (sendEmailAlert w a)
     (\<lambda>_. if severity a = ''critical'' then sendWhatsAppAlert w a else resolve ()) s = (r, s')
   \<Longrightarrow> calls s' = calls s @ until_failure w (alert_calls a)
       \<and> (r = Inr () \<longleftrightarrow> dispatches w a)"
  by (auto simp: then_do_def sendEmailAlert_def sendWhatsAppAlert_def call_def resolve_def
        alert_calls_def dispatches_def split: option.splits if_splits)

lemma dispatch_loop:
  "for_of alertList
     (\<lambda>alert _. then_do (sendEmailAlert w alert)
        (\<lambda>_. if severity alert = ''critical'' then sendWhatsAppAlert w alert else resolve ()))
     () s = (r, s')
   \<Longrightarrow> calls s' = calls s @ until_failure w (concat (map alert_calls alertList))"
proof (induction alertList arbitrary: s)
  case Nil
  then show ?case by (simp add: resolve_def)
next
  case (Cons a rest)
  let ?body = "\<lambda>alert (_::unit). then_do (sendEmailAlert w alert)
        (\<lambda>_. if severity alert = ''critical'' then sendWhatsAppAlert w alert else resolve ())"
  obtain r1 s1 where one: "?body a () s = (r1, s1)" by (cases "?body a () s")
  note step = then_do_cases[where m = "?body a ()" and s = s and f = "for_of rest ?body", OF one]
  from dispatch_one[OF one]
  have c1: "calls s1 = calls s @ until_failure w (alert_calls a)"
    and ok: "r1 = Inr () \<longleftrightarrow> dispatches w a" by auto
  show ?case
  proof (cases r1)
    case (Inl e)
    with ok have "\<not> dispatches w a" by simp
    moreover from Cons.prems step Inl have "s' = s1" by simp
    ultimately show ?thesis
      using c1 by (simp add: until_failure_append dispatches_def)
  next
    case (Inr u)
    with ok have d: "dispatches w a" by simp
    from Cons.prems step Inr have "for_of rest ?body () s1 = (r, s')"
      by simp
    from Cons.IH[OF this] show ?thesis
      using c1 d by (simp add: until_failure_append until_failure_all dispatches_def)
  qed
qed

lemma sendHealthAlerts_returns: "fst (sendHealthAlerts w alertList s) = Inr ()"
  by (simp add: sendHealthAlerts_def try_catch_def resolve_def split: prod.splits sum.splits)

lemma mail_down_simps:
  "fails mail_down = (\<lambda>c. None)(SendMail (high_alert ''paymaster'') := Some ''ECONNRESET'')"
  by (simp add: mail_down_def failing_simps calm_simps)

lemma constructed_simps:
  "calls (constructed t) = []" "now (constructed t) = t" "monitoringMetrics (constructed t) = []"
  "deploymentStatus (constructed t) = Map.empty"
  by (simp_all add: constructed_def initializeMonitoring_def)

text \<open>
  C4, as the code has it. \<open>sendHealthAlerts\<close> never throws, and the channel calls it
  makes are those of the alerts in order, up to and including the first call that fails:
  when every alert dispatches, every call is made; when an alert fails to dispatch, the
  alerts before it were dispatched and no call is made for any alert after it.
\<close>

theorem dispatch_stops_at_first_failure:
  "fst (sendHealthAlerts w alertList s) = Inr ()
   \<and> calls (snd (sendHealthAlerts w alertList s)) =
       calls s @ until_failure w (concat (map alert_calls alertList))
   \<and> ((\<forall>a \<in> set alertList. dispatches w a) \<longrightarrow>
        calls (snd (sendHealthAlerts w alertList s)) = calls s @ concat (map alert_calls alertList))
   \<and> (alertList = before @ a # after \<and> (\<forall>b \<in> set before. dispatches w b) \<and> \<not> dispatches w a \<longrightarrow>
        calls (snd (sendHealthAlerts w alertList s)) =
          calls s @ concat (map alert_calls before) @ until_failure w (alert_calls a))"
proof -
  let ?body = "\<lambda>alert (_::unit). then_do (sendEmailAlert w alert)
        (\<lambda>_. if severity alert = ''critical'' then sendWhatsAppAlert w alert else resolve ())"
  obtain r s1 where loop: "for_of alertList ?body () s = (r, s1)"
    by (cases "for_of alertList ?body () s")
  have s': "snd (sendHealthAlerts w alertList s) = s1"
    using loop by (cases r) (simp_all add: sendHealthAlerts_def try_catch_def resolve_def)
  have c: "calls (snd (sendHealthAlerts w alertList s)) =
             calls s @ until_failure w (concat (map alert_calls alertList))"
    using dispatch_loop[OF loop] s' by simp
  have all_ok: "list_all (\<lambda>c. fails w c = None) (concat (map alert_calls xs))"
    if "\<forall>a \<in> set xs. dispatches w a" for xs
    using that by (induction xs) (auto simp: dispatches_def)
  have part: "until_failure w (concat (map alert_calls (before @ a # after))) =
               concat (map alert_calls before) @ until_failure w (alert_calls a)"
    if "\<forall>b \<in> set before. dispatches w b" "\<not> dispatches w a"
    using that all_ok[of before] by (simp add: until_failure_append dispatches_def)
  show ?thesis
    using c all_ok[of alertList] part
    by (auto simp: sendHealthAlerts_returns until_failure_all)
qed

theorem dispatch_stops_at_first_failure_witness:
  "[high_alert ''lexi-pro'', high_alert ''paymaster'', high_alert ''edu-kids'']
     = [high_alert ''lexi-pro''] @ high_alert ''paymaster'' # [high_alert ''edu-kids'']
   \<and> list_all (dispatches mail_down) [high_alert ''lexi-pro'']
   \<and> \<not> dispatches mail_down (high_alert ''paymaster'')
   \<and> calls (snd (sendHealthAlerts mail_down
         [high_alert ''lexi-pro'', high_alert ''paymaster'', high_alert ''edu-kids'']
         (constructed 0)))
       = [SendMail (high_alert ''lexi-pro''), SendMail (high_alert ''paymaster'')]
   \<and> list_all (dispatches calm) [high_alert ''lexi-pro'', critical_alert]
   \<and> calls (snd (sendHealthAlerts calm [high_alert ''lexi-pro'', critical_alert] (constructed 0)))
       = [SendMail (high_alert ''lexi-pro''), SendMail critical_alert, SendWhatsApp critical_alert]"
proof -
  have h1: "[high_alert ''lexi-pro'', high_alert ''paymaster'', high_alert ''edu-kids'']
     = [high_alert ''lexi-pro''] @ high_alert ''paymaster'' # [high_alert ''edu-kids'']"
    by simp
  have h2: "\<forall>b \<in> set [high_alert ''lexi-pro'']. dispatches mail_down b"
    by (simp add: dispatches_def alert_calls_def mail_down_simps high_alert_def)
  have h3: "\<not> dispatches mail_down (high_alert ''paymaster'')"
    by (simp add: dispatches_def alert_calls_def mail_down_simps)
  have h4: "\<forall>a \<in> set [high_alert ''lexi-pro'', critical_alert]. dispatches calm a"
    by (simp add: dispatches_def alert_calls_def calm_simps high_alert_def critical_alert_def)
  have u: "until_failure mail_down (alert_calls (high_alert ''paymaster''))
             = [SendMail (high_alert ''paymaster'')]"
    by (simp add: alert_calls_def mail_down_simps high_alert_def)
  have c: "concat (map alert_calls [high_alert ''lexi-pro'', critical_alert])
             = [SendMail (high_alert ''lexi-pro''), SendMail critical_alert, SendWhatsApp critical_alert]"
          "concat (map alert_calls [high_alert ''lexi-pro'']) = [SendMail (high_alert ''lexi-pro'')]"
    by (simp_all add: alert_calls_def high_alert_def critical_alert_def)
  note t1 = dispatch_stops_at_first_failure
            [where w = mail_down and s = "constructed 0" and a = "high_alert ''paymaster''"
               and before = "[high_alert ''lexi-pro'']" and after = "[high_alert ''edu-kids'']"
               and alertList = "[high_alert ''lexi-pro'', high_alert ''paymaster'', high_alert ''edu-kids'']"]
  note t2 = dispatch_stops_at_first_failure
            [where w = calm and s = "constructed 0" and a = critical_alert
               and before = "[]" and after = "[]"
               and alertList = "[high_alert ''lexi-pro'', critical_alert]"]
  from t1 h1 h2 h3 have r1: "calls (snd (sendHealthAlerts mail_down
         [high_alert ''lexi-pro'', high_alert ''paymaster'', high_alert ''edu-kids'']
         (constructed 0)))
       = calls (constructed 0) @ concat (map alert_calls [high_alert ''lexi-pro''])
           @ until_failure mail_down (alert_calls (high_alert ''paymaster''))"
    by blast
  from t2 h4 have r2: "calls (snd (sendHealthAlerts calm [high_alert ''lexi-pro'', critical_alert] (constructed 0)))
       = calls (constructed 0) @ concat (map alert_calls [high_alert ''lexi-pro'', critical_alert])"
    by blast
  have l2: "list_all (dispatches mail_down) [high_alert ''lexi-pro'']"
    using h2 by (simp add: list_all_iff)
  have l4: "list_all (dispatches calm) [high_alert ''lexi-pro'', critical_alert]"
    using h4 by (simp add: list_all_iff)
  show ?thesis
    using l2 h3 l4 by (simp only: r1 r2 u c constructed_simps append_Nil append_Cons simp_thms)
qed

text \<open>
  C4 as stated fails: of three alerts, when the mail for the second is refused, the mail
  for the third is never sent.
\<close>

theorem third_alert_counterexample:
  "fails mail_down (SendMail (high_alert ''paymaster'')) = Some ''ECONNRESET''
   \<and> calls (snd (sendHealthAlerts mail_down
         [high_alert ''lexi-pro'', high_alert ''paymaster'', high_alert ''edu-kids'']
         (constructed 0)))
       = [SendMail (high_alert ''lexi-pro''), SendMail (high_alert ''paymaster'')]
   \<and> SendMail (high_alert ''edu-kids'') \<notin> set (calls (snd (sendHealthAlerts mail_down
         [high_alert ''lexi-pro'', high_alert ''paymaster'', high_alert ''edu-kids'']
         (constructed 0))))"
  by (simp add: sendHealthAlerts_def try_catch_def then_do_def resolve_def call_def
        sendEmailAlert_def sendWhatsAppAlert_def mail_down_simps constructed_simps high_alert_def)

subsection \<open>Agent probes\<close>

lemma checkAgentHealth_eq:
  "checkAgentHealth w agentId s =
     (Inr (probe_result w agentId (now s)),
      s\<lparr>now := now s + probe_ms w agentId,
        calls := calls s @ [Fetch (agent_health_url w agentId)]\<rparr>)"
  by (simp add: checkAgentHealth_def try_catch_def then_do_def Date_now_def call_def resolve_def
        probe_result_def probe_ms_def Let_def split: option.splits)

lemma obj_set_fresh: "k \<notin> fst ` set m \<Longrightarrow> obj_set k v m = m @ [(k, v)]"
  by (induction m) auto

lemma sweep_loop:
  "distinct ids \<Longrightarrow> set ids \<inter> fst ` set acc = {} \<Longrightarrow>
   for_of ids
     (\<lambda>agentId agents. then_do (checkAgentHealth w agentId) (\<lambda>h. resolve (obj_set agentId h agents)))
     acc s =
     (Inr (acc @ sweep w ids (now s)),
      s\<lparr>now := now s + sum_list (map (probe_ms w) ids),
        calls := calls s @ map (\<lambda>agentId. Fetch (agent_health_url w agentId)) ids\<rparr>)"
proof (induction ids arbitrary: acc s)
  case Nil
  then show ?case by (simp add: resolve_def)
next
  case (Cons a ids)
  have fresh: "a \<notin> fst ` set acc" using Cons.prems(2) by auto
  have d: "distinct ids" using Cons.prems(1) by simp
  have disj: "set ids \<inter> fst ` set (acc @ [(a, probe_result w a (now s))]) = {}"
    using Cons.prems by auto
  let ?body = "\<lambda>agentId agents.
        then_do (checkAgentHealth w agentId) (\<lambda>h. resolve (obj_set agentId h agents))"
  let ?s1 = "s\<lparr>now := now s + probe_ms w a, calls := calls s @ [Fetch (agent_health_url w a)]\<rparr>"
  have one: "?body a acc s = (Inr (acc @ [(a, probe_result w a (now s))]), ?s1)"
    by (simp add: then_do_def checkAgentHealth_eq resolve_def obj_set_fresh[OF fresh])
  have "for_of (a # ids) ?body acc s =
          for_of ids ?body (acc @ [(a, probe_result w a (now s))]) ?s1"
    using then_do_cases[where m = "?body a acc" and s = s and f = "for_of ids ?body", OF one]
    by simp
  then show ?case
    by (simp add: Cons.IH[OF d disj] add.assoc)
qed

lemma sweep_names: "map fst (sweep w ids t) = ids"
  by (induction ids arbitrary: t) auto

lemma sweep_status:
  "(agentId, h) \<in> set (sweep w ids t) \<Longrightarrow>
   agent_status h = (if probe_ok w agentId then ''healthy'' else ''unhealthy'')"
  by (induction ids arbitrary: t) (auto simp: probe_result_def probe_ok_def split: option.splits)

lemma checkAgentsHealth_run:
  "checkAgentsHealth w s =
     (Inr (sweep w agentRoster (now s)),
      s\<lparr>now := now s + sum_list (map (probe_ms w) agentRoster),
        calls := calls s @ map (\<lambda>agentId. Fetch (agent_health_url w agentId)) agentRoster\<rparr>)"
proof -
  have d: "distinct agentRoster" by (simp add: agentRoster_def)
  show ?thesis
    unfolding checkAgentsHealth_def using sweep_loop[OF d, of "[]" w s] by simp
qed

lemma slow_probes_simps:
  "fails slow_probes = (\<lambda>c. if c = Fetch ''http://localhost:3000/api/agents/miss-legal/health''
                          then Some ''network timeout'' else None)"
  "takes slow_probes = (\<lambda>c. if c = Fetch ''http://localhost:3000/api/agents/miss-legal/health''
                          then 5000 else 3000)"
  "fetch_ok slow_probes = (\<lambda>url. True)"
  "agent_health_url slow_probes agentId = ''http://localhost:3000/api/agents/'' @ agentId @ ''/health''"
  by (simp_all add: slow_probes_def calm_def agent_health_url_def str_or_def)

lemma slow_probes_elapsed: "sum_list (map (probe_ms slow_probes) agentRoster) = 35000"
  by (simp add: agentRoster_def probe_ms_def slow_probes_simps)

lemma slow_probes_statuses:
  "map (agent_status \<circ> snd) (sweep slow_probes agentRoster t) =
     [''healthy'', ''healthy'', ''unhealthy'', ''healthy'', ''healthy'', ''healthy'',
      ''healthy'', ''healthy'', ''healthy'', ''healthy'', ''healthy'']"
  by (simp add: agentRoster_def probe_result_def probe_ms_def slow_probes_simps)

text \<open>
  C9, as the code has it. The probes of the eleven agents run one after the other in
  roster order, each started when the one before has returned: an agent is marked healthy
  exactly when its request succeeds with an ok response and unhealthy otherwise, and the
  sweep lasts as long as all its probes together.
\<close>

theorem agent_probes_run_in_sequence:
  "checkAgentsHealth w s =
     (Inr (sweep w agentRoster (now s)),
      s\<lparr>now := now s + sum_list (map (probe_ms w) agentRoster),
        calls := calls s @ map (\<lambda>agentId. Fetch (agent_health_url w agentId)) agentRoster\<rparr>)
   \<and> map fst (sweep w agentRoster (now s)) = agentRoster
   \<and> (\<forall>(agentId, h) \<in> set (sweep w agentRoster (now s)).
         agent_status h = (if probe_ok w agentId then ''healthy'' else ''unhealthy''))
   \<and> now (snd (checkAgentsHealth w s)) - now s = sum_list (map (probe_ms w) agentRoster)"
  using sweep_status by (auto simp: checkAgentsHealth_run sweep_names)

theorem agent_probes_run_in_sequence_witness:
  "map fst (projr (fst (checkAgentsHealth slow_probes (constructed 0)))) = agentRoster
   \<and> \<not> probe_ok slow_probes ''miss-legal'' \<and> probe_ok slow_probes ''paymaster''
   \<and> now (snd (checkAgentsHealth slow_probes (constructed 0))) - now (constructed 0) = 35000"
  using agent_probes_run_in_sequence[of slow_probes "constructed 0"]
  by (simp add: slow_probes_elapsed probe_ok_def slow_probes_simps)

text \<open>
  C9 as stated fails: with one agent timing out after 5000 ms and the ten others answering
  in 3000 ms each, the sweep marks one agent unhealthy and ten healthy and lasts 35000 ms,
  more than five times the bound of a single probe.
\<close>

theorem sequential_sweep_counterexample:
  "map (agent_status \<circ> snd) (projr (fst (checkAgentsHealth slow_probes (constructed 0)))) =
     [''healthy'', ''healthy'', ''unhealthy'', ''healthy'', ''healthy'', ''healthy'',
      ''healthy'', ''healthy'', ''healthy'', ''healthy'', ''healthy'']
   \<and> probe_ms slow_probes ''miss-legal'' = 5000
   \<and> now (snd (checkAgentsHealth slow_probes (constructed 0))) - now (constructed 0) = 35000
   \<and> \<not> now (snd (checkAgentsHealth slow_probes (constructed 0))) - now (constructed 0) \<le> 5 * 5000"
  by (simp add: checkAgentsHealth_run slow_probes_statuses slow_probes_elapsed constructed_simps
        probe_ms_def slow_probes_simps)

subsection \<open>The comprehensive health check\<close>

lemma checkServicesHealth_fails:
  "\<exists>k \<in> set [''voice_engine'', ''email_system'', ''payment_system'', ''whatsapp_api'',
               ''knowledge_base'', ''legal_services'']. fails w (CheckService k) \<noteq> None
   \<Longrightarrow> \<exists>e. fst (checkServicesHealth w s) = Inl e"
  by (auto simp: checkServicesHealth_def checkDatabaseHealth_def checkServiceHealth_def
        then_do_def try_catch_def Date_now_def resolve_def call_def Let_def split: option.splits)

lemma checkInfrastructureHealth_fails:
  "fails w CheckInfrastructure \<noteq> None \<Longrightarrow> \<exists>e. fst (checkInfrastructureHealth w s) = Inl e"
  by (auto simp: checkInfrastructureHealth_def then_do_def call_def split: option.splits)

lemma threshold_critical_preserves [simp]: "preserves g (threshold_critical key)"
  by (simp add: preserves_def threshold_critical_def split: option.splits)

lemma keeps_systemHealth:
  "preserves systemHealth (checkServicesHealth w)"
  "preserves systemHealth (checkAgentsHealth w)"
  "preserves systemHealth (checkInfrastructureHealth w)"
  "preserves systemHealth (checkForAlerts w hr)"
  "preserves systemHealth (sendHealthAlerts w al)"
  by (auto simp: checkServicesHealth_def checkDatabaseHealth_def checkServiceHealth_def
        checkAgentsHealth_def checkAgentHealth_def checkInfrastructureHealth_def
        checkForAlerts_def sendHealthAlerts_def sendEmailAlert_def sendWhatsAppAlert_def
        Let_def split_def
      intro!: preserves_intros)

lemma preservesD: "preserves g m \<Longrightarrow> m s = (r, s1) \<Longrightarrow> g s1 = g s"
  by (auto simp: preserves_def dest: spec[of _ s])

lemma sendHealthAlerts_Inr: "sendHealthAlerts w al s = (r, s1) \<Longrightarrow> r = Inr ()"
  using sendHealthAlerts_returns[of w al s] by simp

lemma evaluateOverallHealth_enum: "evaluateOverallHealth hr \<in> set status_enum"
  by (simp add: evaluateOverallHealth_def status_enum_def Let_def)

lemma performHealthChecks_outcome:
  assumes "performHealthChecks w s = (r, s')"
  shows "\<exists>hr. r = Inr hr
     \<and> (hr_error hr \<noteq> None \<longrightarrow> systemHealth s' = systemHealth s \<and> overall_status hr = ''unhealthy'')
     \<and> (hr_error hr = None \<longrightarrow>
          systemHealth s' = (systemHealth s)\<lparr>sh_last_health_check := Some hr,
                                             sh_overall_status := Some (overall_status hr)\<rparr>
          \<and> overall_status hr \<in> set status_enum
          \<and> (\<exists>x. fst (checkServicesHealth w s) = Inr x)
          \<and> (\<exists>s2 y. fst (checkInfrastructureHealth w s2) = Inr y)
          \<and> evaluateOverallHealth (hr\<lparr>alerts := []\<rparr>) = overall_status hr)"
proof -
  define hr0 where "hr0 =
     \<lparr>hr_timestamp = now s, overall_status = ''healthy'', services = [], agents = [],
      infrastructure = \<lparr>cpu_usage = None, memory_usage = None, disk_usage = None\<rparr>,
      alerts = [], hr_error = None\<rparr>"
  have caught: ?thesis if "r = Inr (health_check_caught hr e)" "systemHealth s' = systemHealth s"
    for hr e
    apply (rule exI[of _ "health_check_caught hr e"])
    using that by (simp add: health_check_caught_def)
  obtain r1 s1 where c1: "checkServicesHealth w s = (r1, s1)" by (cases "checkServicesHealth w s")
  obtain r2 s2 where c2: "checkAgentsHealth w s1 = (r2, s2)" by (cases "checkAgentsHealth w s1")
  obtain r3 s3 where c3: "checkInfrastructureHealth w s2 = (r3, s3)"
    by (cases "checkInfrastructureHealth w s2")
  have k1: "systemHealth s1 = systemHealth s" using preservesD[OF keeps_systemHealth(1) c1] .
  have k2: "systemHealth s2 = systemHealth s" using preservesD[OF keeps_systemHealth(2) c2] k1 by simp
  have k3: "systemHealth s3 = systemHealth s" using preservesD[OF keeps_systemHealth(3) c3] k2 by simp
  show ?thesis
  proof (cases r1)
    case (Inl e)
    have "performHealthChecks w s = (Inr (health_check_caught hr0 e), s1)"
      using c1 Inl by (simp add: performHealthChecks_def Let_def hr0_def)
    with assms have "r = Inr (health_check_caught hr0 e)" "s' = s1" by simp_all
    then show ?thesis using caught k1 by simp
  next
    case svcs: (Inr svcs)
    define hr1 where "hr1 = hr0\<lparr>services := svcs\<rparr>"
    show ?thesis
    proof (cases r2)
      case (Inl e)
      have "performHealthChecks w s = (Inr (health_check_caught hr1 e), s2)"
        using c1 c2 svcs Inl by (simp add: performHealthChecks_def Let_def hr0_def hr1_def)
      with assms have "r = Inr (health_check_caught hr1 e)" "s' = s2" by simp_all
      then show ?thesis using caught k2 by simp
    next
      case ags: (Inr ags)
      define hr2 where "hr2 = hr1\<lparr>agents := ags\<rparr>"
      show ?thesis
      proof (cases r3)
        case (Inl e)
        have "performHealthChecks w s = (Inr (health_check_caught hr2 e), s3)"
          using c1 c2 c3 svcs ags Inl
          by (simp add: performHealthChecks_def Let_def hr0_def hr1_def hr2_def)
        with assms have "r = Inr (health_check_caught hr2 e)" "s' = s3" by simp_all
        then show ?thesis using caught k3 by simp
      next
        case infra: (Inr infra)
        define hr3 where "hr3 = hr2\<lparr>infrastructure := infra\<rparr>"
        define hr4 where "hr4 = hr3\<lparr>overall_status := evaluateOverallHealth hr3\<rparr>"
        obtain r4 s4 where c4: "checkForAlerts w hr4 s3 = (r4, s4)"
          by (cases "checkForAlerts w hr4 s3")
        have k4: "systemHealth s4 = systemHealth s"
          using preservesD[OF keeps_systemHealth(4) c4] k3 by simp
        show ?thesis
        proof (cases r4)
          case (Inl e)
          have "performHealthChecks w s = (Inr (health_check_caught hr4 e), s4)"
            using c1 c2 c3 c4 svcs ags infra Inl
            by (simp add: performHealthChecks_def Let_def hr0_def hr1_def hr2_def hr3_def hr4_def)
          with assms have "r = Inr (health_check_caught hr4 e)" "s' = s4" by simp_all
          then show ?thesis using caught k4 by simp
        next
          case als: (Inr als)
          define hr5 where "hr5 = hr4\<lparr>alerts := als\<rparr>"
          define s5 where "s5 = s4\<lparr>systemHealth := (systemHealth s4)
                          \<lparr>sh_last_health_check := Some hr5,
                           sh_overall_status := Some (overall_status hr5)\<rparr>\<rparr>"
          have e5: "hr_error hr5 = None" "overall_status hr5 \<in> set status_enum"
            by (simp_all add: hr5_def hr4_def hr3_def hr2_def hr1_def hr0_def
                  evaluateOverallHealth_enum)
          have sub: "\<exists>x. fst (checkServicesHealth w s) = Inr x"
                    "\<exists>s2 y. fst (checkInfrastructureHealth w s2) = Inr y"
            using c1 svcs c3 infra by (auto intro: exI[of _ s2])
          have st: "evaluateOverallHealth (hr5\<lparr>alerts := []\<rparr>) = overall_status hr5"
            by (simp add: hr5_def hr4_def hr3_def hr2_def hr1_def hr0_def evaluateOverallHealth_def)
          have k5: "systemHealth s5 = (systemHealth s)\<lparr>sh_last_health_check := Some hr5,
                                             sh_overall_status := Some (overall_status hr5)\<rparr>"
            by (simp add: s5_def k4)
          obtain r6 s6 where c6: "sendHealthAlerts w (alerts hr5) s5 = (r6, s6)"
            by (cases "sendHealthAlerts w (alerts hr5) s5")
          have r6: "r6 = Inr ()" using sendHealthAlerts_Inr[OF c6] .
          have k6: "systemHealth s6 = systemHealth s5"
            using preservesD[OF keeps_systemHealth(5) c6] .
          have "performHealthChecks w s = (Inr hr5, if length (alerts hr5) > 0 then s6 else s5)"
            using c1 c2 c3 c4 svcs ags infra als c6 r6
            by (simp add: performHealthChecks_def Let_def hr0_def hr1_def hr2_def hr3_def hr4_def
                  hr5_def s5_def)
          with assms have "r = Inr hr5" "systemHealth s' = systemHealth s5"
            using k6 by (simp_all split: if_splits)
          then show ?thesis
            apply -
            apply (rule exI[of _ hr5])
            using e5 sub k5 st by simp
        qed
      qed
    qed
  qed
qed

text \<open>
  The status of a stored result is computed while its alert list is still empty: the
  alerts that \<open>checkForAlerts\<close> raises afterwards do not enter it.
\<close>

lemma stored_status_computed_before_alerts:
  assumes "performHealthChecks w s = (Inr hr, s')" and "hr_error hr = None"
  shows "overall_status hr = evaluateOverallHealth (hr\<lparr>alerts := []\<rparr>)"
  using performHealthChecks_outcome[OF assms(1)] assms(2) by simp

text \<open>
  C10. A comprehensive health check in which a sub-check throws leaves the stored system
  health as it was: neither the snapshot nor the stored overall status is written. Its own
  result carries the status \<open>unhealthy\<close>, which is none of the four documented values,
  and is discarded. A check without error stores its result and one of the four values.
\<close>

theorem failed_health_check_keeps_snapshot:
  "\<exists>hr s'. performHealthChecks w s = (Inr hr, s')
     \<and> (hr_error hr \<noteq> None \<longrightarrow>
          systemHealth s' = systemHealth s \<and> overall_status hr = ''unhealthy'')
     \<and> (hr_error hr = None \<longrightarrow>
          systemHealth s' = (systemHealth s)\<lparr>sh_last_health_check := Some hr,
                                             sh_overall_status := Some (overall_status hr)\<rparr>
          \<and> overall_status hr \<in> set status_enum)
     \<and> ((\<exists>c \<in> set health_subchecks. fails w c \<noteq> None) \<longrightarrow> hr_error hr \<noteq> None)
     \<and> ''unhealthy'' \<notin> set status_enum"
proof -
  obtain r s' where run: "performHealthChecks w s = (r, s')" by (cases "performHealthChecks w s")
  from performHealthChecks_outcome[OF run] obtain hr where
    r: "r = Inr hr" and
    bad: "hr_error hr \<noteq> None \<longrightarrow> systemHealth s' = systemHealth s \<and> overall_status hr = ''unhealthy''" and
    good: "hr_error hr = None \<longrightarrow>
          systemHealth s' = (systemHealth s)\<lparr>sh_last_health_check := Some hr,
                                             sh_overall_status := Some (overall_status hr)\<rparr>
          \<and> overall_status hr \<in> set status_enum
          \<and> (\<exists>x. fst (checkServicesHealth w s) = Inr x)
          \<and> (\<exists>s2 y. fst (checkInfrastructureHealth w s2) = Inr y)
          \<and> evaluateOverallHealth (hr\<lparr>alerts := []\<rparr>) = overall_status hr"
    by (elim exE conjE) (rule that, assumption+)
  have sub: "hr_error hr \<noteq> None" if c: "\<exists>c \<in> set health_subchecks. fails w c \<noteq> None"
  proof (rule ccontr)
    assume "\<not> hr_error hr \<noteq> None"
    with good obtain x s2 y where
      a: "fst (checkServicesHealth w s) = Inr x" and b: "fst (checkInfrastructureHealth w s2) = Inr y"
      by blast
    from c consider
      "\<exists>k \<in> set [''voice_engine'', ''email_system'', ''payment_system'', ''whatsapp_api'',
               ''knowledge_base'', ''legal_services'']. fails w (CheckService k) \<noteq> None"
      | "fails w CheckInfrastructure \<noteq> None"
      by (auto simp: health_subchecks_def)
    then show False
    proof cases
      case 1
      from checkServicesHealth_fails[OF 1, of s] a show False by auto
    next
      case 2
      from checkInfrastructureHealth_fails[OF 2, of s2] b show False by auto
    qed
  qed
  show ?thesis
    apply (rule exI[of _ hr], rule exI[of _ s'])
    using bad good sub by (simp add: run r status_enum_def)
qed

theorem failed_health_check_keeps_snapshot_witness:
  "(\<exists>c \<in> set health_subchecks. fails voice_down c \<noteq> None)
   \<and> systemHealth (snd (performHealthChecks voice_down (constructed 0))) = systemHealth (constructed 0)
   \<and> overall_status (projr (fst (performHealthChecks voice_down (constructed 0)))) = ''unhealthy''"
proof -
  have h: "\<exists>c \<in> set health_subchecks. fails voice_down c \<noteq> None"
    by (simp add: health_subchecks_def voice_down_def failing_simps)
  from failed_health_check_keeps_snapshot[of voice_down "constructed 0"]
  obtain hr s' where
    run: "performHealthChecks voice_down (constructed 0) = (Inr hr, s')" and
    bad: "hr_error hr \<noteq> None \<longrightarrow>
            systemHealth s' = systemHealth (constructed 0) \<and> overall_status hr = ''unhealthy''" and
    sub: "(\<exists>c \<in> set health_subchecks. fails voice_down c \<noteq> None) \<longrightarrow> hr_error hr \<noteq> None"
    by (elim exE conjE) (rule that, assumption+)
  from sub h have "hr_error hr \<noteq> None" by (rule mp)
  with bad have "systemHealth s' = systemHealth (constructed 0) \<and> overall_status hr = ''unhealthy''"
    by (rule mp)
  then show ?thesis using h by (simp add: run)
qed

subsection \<open>Metrics store\<close>

lemma obj_set_key_list:
  "map fst (obj_set k v m) = (if k \<in> fst ` set m then map fst m else map fst m @ [k])"
  by (induction m) force+

lemma obj_set_keys: "fst ` set (obj_set k v m) = insert k (fst ` set m)"
  using arg_cong[OF obj_set_key_list[of k v m], of set] by (auto split: if_splits)

lemma obj_set_distinct: "distinct (map fst m) \<Longrightarrow> distinct (map fst (obj_set k v m))"
  by (simp add: obj_set_key_list)

lemma obj_set_length:
  "length (obj_set k v m) = (if k \<in> fst ` set m then length m else Suc (length m))"
  using arg_cong[OF obj_set_key_list[of k v m], of length] by (simp split: if_splits)

lemma Math_min_Min: "ks \<noteq> [] \<Longrightarrow> Math_min ks = Some (Min (set ks))"
proof (cases ks)
  case Nil
  assume "ks \<noteq> []"
  with Nil show ?thesis by simp
next
  case (Cons a list)
  then show ?thesis using Min.set_eq_fold[of a list] by simp
qed

lemma Map_delete_keys: "fst ` set (Map_delete k m) = fst ` set m - {k}"
  by (induction m) (auto simp: Map_delete_def)

lemma Map_delete_distinct: "distinct (map fst m) \<Longrightarrow> distinct (map fst (Map_delete k m))"
  by (induction m) (auto simp: Map_delete_def)

lemma Map_delete_length:
  "distinct (map fst m) \<Longrightarrow> k \<in> fst ` set m \<Longrightarrow> Suc (length (Map_delete k m)) = length m"
proof (induction m)
  case Nil
  then show ?case by simp
next
  case (Cons a m)
  show ?case
  proof (cases "fst a = k")
    case True
    then have "k \<notin> fst ` set m" using Cons.prems(1) by auto
    then have "Map_delete k m = m" by (induction m) (auto simp: Map_delete_def)
    with True show ?thesis by (simp add: Map_delete_def split_def)
  next
    case False
    with Cons show ?thesis by (auto simp: Map_delete_def split_def)
  qed
qed

lemma store_metrics_evicts_Min:
  "length (obj_set k v m) > 1000 \<Longrightarrow>
   store_metrics k v m = Map_delete (Min (fst ` set (obj_set k v m))) (obj_set k v m)"
proof -
  assume a: "length (obj_set k v m) > 1000"
  then have "map fst (obj_set k v m) \<noteq> []" by auto
  from Math_min_Min[OF this] a show ?thesis by (simp add: store_metrics_def Let_def)
qed

lemma store_metrics_keeps:
  "length (obj_set k v m) \<le> 1000 \<Longrightarrow> store_metrics k v m = obj_set k v m"
  by (simp add: store_metrics_def Let_def)

lemma store_metrics_newest:
  assumes inv: "newest_of H m"
  shows "newest_of (insert k H) (store_metrics k v m)"
proof -
  let ?K = "fst ` set m"
  let ?m1 = "obj_set k v m"
  from inv have d: "distinct (map fst m)" and len: "length m \<le> 1000" and sub: "?K \<subseteq> H"
    and old: "\<forall>h \<in> H - ?K. \<forall>j \<in> ?K. h < j" and full: "H - ?K \<noteq> {} \<longrightarrow> length m = 1000"
    by (auto simp: newest_of_def)
  have d1: "distinct (map fst ?m1)" using d by (rule obj_set_distinct)
  have K1: "fst ` set ?m1 = insert k ?K" by (rule obj_set_keys)
  show ?thesis
  proof (cases "length ?m1 > 1000")
    case False
    then have eq: "store_metrics k v m = ?m1" by (simp add: store_metrics_keeps)
    have "H - ?K = {}" if "k \<notin> ?K"
    proof (rule ccontr)
      assume "H - ?K \<noteq> {}"
      with full have "length m = 1000" by simp
      with that False show False by (simp add: obj_set_length)
    qed
    then have empty: "k \<notin> ?K \<Longrightarrow> H - ?K = {}" .
    show ?thesis
    proof (cases "k \<in> ?K")
      case True
      then have a: "insert k ?K = ?K" "insert k H - ?K = H - ?K" "length ?m1 = length m"
        using sub by (auto simp: obj_set_length)
      have "k \<in> H" using True sub by auto
      then have b: "insert k H = H" by auto
      show ?thesis
        unfolding newest_of_def eq K1 a b
        using d1 len sub old full by (simp add: a K1)
    next
      case knew: False
      then have "H \<subseteq> ?K" using empty by auto
      then have c: "insert k H - insert k ?K = {}" by auto
      show ?thesis
        unfolding newest_of_def eq K1 c
        using d1 False sub by auto
    qed
  next
    case True
    let ?mn = "Min (insert k ?K)"
    have eq: "store_metrics k v m = Map_delete ?mn ?m1"
      using store_metrics_evicts_Min[OF True] by (simp add: K1)
    have fin: "finite (insert k ?K)" by simp
    have mn_in: "?mn \<in> insert k ?K" by (rule Min_in) (use fin in auto)
    have mn_le: "\<And>j. j \<in> insert k ?K \<Longrightarrow> ?mn \<le> j" by (rule Min_le) (use fin in auto)
    have knew: "k \<notin> ?K" using True len by (auto simp: obj_set_length split: if_splits)
    have len1: "length ?m1 = Suc (length m)" using knew by (simp add: obj_set_length)
    have lenm: "length m = 1000" using True len len1 by simp
    have K2: "fst ` set (Map_delete ?mn ?m1) = insert k ?K - {?mn}"
      by (simp add: Map_delete_keys K1)
    have d2: "distinct (map fst (Map_delete ?mn ?m1))" using d1 by (rule Map_delete_distinct)
    have "Suc (length (Map_delete ?mn ?m1)) = length ?m1"
      using Map_delete_length[OF d1] mn_in K1 by simp
    then have len2: "length (Map_delete ?mn ?m1) = 1000" using len1 lenm by simp
    have order: "h < j" if "h \<in> insert k H - (insert k ?K - {?mn})" "j \<in> insert k ?K - {?mn}" for h j
    proof -
      from that(2) have j: "j \<in> insert k ?K" "j \<noteq> ?mn" by auto
      from mn_le[OF j(1)] j(2) have lt: "?mn < j" by simp
      from that(1) consider "h = ?mn" | "h \<in> H - ?K" "h \<noteq> k" by auto
      then show ?thesis
      proof cases
        case 1
        with lt show ?thesis by simp
      next
        case 2
        show ?thesis
        proof (cases "j = k")
          case False
          with j have "j \<in> ?K" by simp
          with old 2 show ?thesis by blast
        next
          case True
          with j mn_in have "?mn \<in> ?K" by auto
          with old 2 have hm: "h < ?mn" by blast
          from hm lt show ?thesis by (rule less_trans)
        qed
      qed
    qed
    show ?thesis
      unfolding newest_of_def eq K2
      using d2 len2 sub order by auto
  qed
qed

lemma metrics_tick_store:
  "monitoringMetrics (snd (metrics_tick w s)) =
     (if records_sample w
      then store_metrics (metrics_key w (now s)) (sample_of w (now s)) (monitoringMetrics s)
      else monitoringMetrics s)"
  by (simp add: metrics_tick_def collectPerformanceMetrics_def getSystemMetrics_def
        getAgentMetrics_def getAPIMetrics_def getBusinessMetrics_def try_catch_def then_do_def
        Date_now_def call_def resolve_def records_sample_def metric_calls_def metrics_key_def
        sample_of_def add.assoc
      split: option.splits)

lemma metrics_ticks_newest:
  "newest_of H (monitoringMetrics s) \<Longrightarrow>
   newest_of (H \<union> set (recorded_keys ticks)) (monitoringMetrics (metrics_ticks ticks s))"
proof (induction ticks arbitrary: s H)
  case Nil
  then show ?case by (simp add: recorded_keys_def)
next
  case (Cons a ticks)
  obtain w t where a: "a = (w, t)" by (cases a)
  let ?s1 = "snd (metrics_tick w (s\<lparr>now := t\<rparr>))"
  show ?case
  proof (cases "records_sample w")
    case True
    have "newest_of (insert (metrics_key w t) H) (monitoringMetrics ?s1)"
      using store_metrics_newest[OF Cons.prems] True by (simp add: metrics_tick_store)
    from Cons.IH[OF this] show ?thesis
      using True by (simp add: a recorded_keys_def)
  next
    case False
    have "newest_of H (monitoringMetrics ?s1)"
      using Cons.prems False by (simp add: metrics_tick_store)
    from Cons.IH[OF this] show ?thesis
      using False by (simp add: a recorded_keys_def)
  qed
qed

lemma newest_of_empty: "newest_of {} []"
  by (simp add: newest_of_def)

lemma eviction_step:
  assumes d: "distinct (map fst m)" and big: "length (obj_set k v m) > 1000"
  shows "Suc (length (store_metrics k v m)) = length (obj_set k v m)
       \<and> (\<forall>j \<in> fst ` set (store_metrics k v m). Min (fst ` set (obj_set k v m)) < j)"
proof -
  let ?m1 = "obj_set k v m"
  let ?mn = "Min (fst ` set ?m1)"
  have eq: "store_metrics k v m = Map_delete ?mn ?m1" using store_metrics_evicts_Min[OF big] .
  have d1: "distinct (map fst ?m1)" using d by (rule obj_set_distinct)
  have ne: "fst ` set ?m1 \<noteq> {}" using big by auto
  have mn_in: "?mn \<in> fst ` set ?m1" by (rule Min_in) (use ne in auto)
  have mn_le: "\<And>j. j \<in> fst ` set ?m1 \<Longrightarrow> ?mn \<le> j" by (rule Min_le) auto
  have len: "Suc (length (Map_delete ?mn ?m1)) = length ?m1"
    using Map_delete_length[OF d1 mn_in] .
  have gt: "?mn < j" if "j \<in> fst ` set (Map_delete ?mn ?m1)" for j
  proof -
    from that have j: "j \<in> fst ` set ?m1" "j \<noteq> ?mn" by (auto simp: Map_delete_keys)
    from mn_le[OF j(1)] j(2) show ?thesis by simp
  qed
  show ?thesis unfolding eq using len gt by blast
qed

lemma full_store_keys: "map fst full_store = map int [0..<1000]"
  by (simp add: full_store_def comp_def)

lemma full_store_key_set: "fst ` set full_store = int ` {0..<1000}"
  using arg_cong[OF full_store_keys, of set] by simp

lemma full_store_distinct: "distinct (map fst full_store)"
  by (simp add: full_store_keys distinct_map)

lemma full_store_plus_one: "length (obj_set 1000 v full_store) = 1001"
proof -
  have "(1000::int) \<notin> fst ` set full_store" by (auto simp: full_store_key_set)
  then show ?thesis by (simp add: obj_set_length full_store_def)
qed

lemma full_store_oldest: "Min (fst ` set (obj_set 1000 v full_store)) = 0"
proof (rule Min_eqI)
  show "finite (fst ` set (obj_set 1000 v full_store))" by simp
  show "\<And>y. y \<in> fst ` set (obj_set 1000 v full_store) \<Longrightarrow> 0 \<le> y"
    by (auto simp: obj_set_keys full_store_key_set)
  show "0 \<in> fst ` set (obj_set 1000 v full_store)"
    by (simp add: obj_set_keys full_store_key_set)
qed

lemma api_down_simps:
  "fails api_down = (\<lambda>c. None)(GetAPIMetrics := Some ''503 Service Unavailable'')"
  "takes api_down = (\<lambda>c. 0)"
  by (simp_all add: api_down_def failing_simps calm_simps)

lemma sample_ticks:
  "recorded_keys [(calm, 20), (api_down, 30), (calm, 10), (calm, 20)] = [20, 10, 20]"
  by (simp add: recorded_keys_def records_sample_def metric_calls_def metrics_key_def
        calm_simps api_down_simps)

lemma sample_ticks_store:
  "map fst (monitoringMetrics
     (metrics_ticks [(calm, 20), (api_down, 30), (calm, 10), (calm, 20)] (constructed 0))) = [20, 10]"
  by (simp add: metrics_tick_store records_sample_def metric_calls_def metrics_key_def
        calm_simps api_down_simps constructed_simps store_metrics_def Let_def)

text \<open>
  C2. Starting from the empty store, after every sequence of scheduled collections the
  store holds at most 1000 entries, and they are the most recent of the recorded keys
  (\<open>newest_of\<close>). One collection stores its sample with \<open>store_metrics\<close> when all its
  readings succeed and leaves the store alone otherwise; when the store would exceed 1000
  entries, \<open>store_metrics\<close> removes the entry with the smallest key, exactly one entry,
  and every remaining key is greater than the removed one.
\<close>

theorem metrics_store_bounded_newest:
  "(monitoringMetrics s = [] \<longrightarrow>
      length (monitoringMetrics (metrics_ticks ticks s)) \<le> 1000
    \<and> newest_of (set (recorded_keys ticks)) (monitoringMetrics (metrics_ticks ticks s)))
   \<and> monitoringMetrics (snd (metrics_tick w s1)) =
       (if records_sample w
        then store_metrics (metrics_key w (now s1)) (sample_of w (now s1)) (monitoringMetrics s1)
        else monitoringMetrics s1)
   \<and> (length (obj_set k v m) > 1000 \<longrightarrow>
        store_metrics k v m = Map_delete (Min (fst ` set (obj_set k v m))) (obj_set k v m))
   \<and> (distinct (map fst m) \<and> length (obj_set k v m) > 1000 \<longrightarrow>
        Suc (length (store_metrics k v m)) = length (obj_set k v m)
        \<and> (\<forall>j \<in> fst ` set (store_metrics k v m). Min (fst ` set (obj_set k v m)) < j))"
proof -
  have run: "newest_of (set (recorded_keys ticks)) (monitoringMetrics (metrics_ticks ticks s))"
    if "monitoringMetrics s = []"
    using metrics_ticks_newest[of "{}" s ticks] that by (simp add: newest_of_empty)
  then have bound: "length (monitoringMetrics (metrics_ticks ticks s)) \<le> 1000"
    if "monitoringMetrics s = []"
    using that by (simp add: newest_of_def)
  show ?thesis
    using run bound metrics_tick_store store_metrics_evicts_Min eviction_step by blast
qed

theorem metrics_store_bounded_newest_witness:
  "monitoringMetrics (constructed 0) = []
   \<and> recorded_keys [(calm, 20), (api_down, 30), (calm, 10), (calm, 20)] = [20, 10, 20]
   \<and> map fst (monitoringMetrics
        (metrics_ticks [(calm, 20), (api_down, 30), (calm, 10), (calm, 20)] (constructed 0))) = [20, 10]
   \<and> newest_of {20, 10}
        (monitoringMetrics
          (metrics_ticks [(calm, 20), (api_down, 30), (calm, 10), (calm, 20)] (constructed 0)))
   \<and> distinct (map fst full_store)
   \<and> length (obj_set 1000 (sample_of calm 1000) full_store) > 1000
   \<and> Min (fst ` set (obj_set 1000 (sample_of calm 1000) full_store)) = 0
   \<and> length (store_metrics 1000 (sample_of calm 1000) full_store) = 1000
   \<and> 0 \<notin> fst ` set (store_metrics 1000 (sample_of calm 1000) full_store)
   \<and> 0 \<in> fst ` set full_store"
proof -
  note t = metrics_store_bounded_newest
             [where s = "constructed 0"
                and ticks = "[(calm, 20), (api_down, 30), (calm, 10), (calm, 20)]"
                and w = calm and ?s1.0 = "constructed 0"
                and k = 1000 and v = "sample_of calm 1000" and m = full_store]
  have e: "monitoringMetrics (constructed 0) = []" by (simp add: constructed_simps)
  have big: "length (obj_set 1000 (sample_of calm 1000) full_store) > 1000"
    by (simp add: full_store_plus_one)
  from t e have n: "newest_of (set (recorded_keys [(calm, 20), (api_down, 30), (calm, 10), (calm, 20)]))
        (monitoringMetrics
          (metrics_ticks [(calm, 20), (api_down, 30), (calm, 10), (calm, 20)] (constructed 0)))"
    by blast
  from t full_store_distinct big
  have ev: "Suc (length (store_metrics 1000 (sample_of calm 1000) full_store))
              = length (obj_set 1000 (sample_of calm 1000) full_store)"
           "\<forall>j \<in> fst ` set (store_metrics 1000 (sample_of calm 1000) full_store).
              Min (fst ` set (obj_set 1000 (sample_of calm 1000) full_store)) < j"
    by blast+
  from ev(2) have gone: "0 \<notin> fst ` set (store_metrics 1000 (sample_of calm 1000) full_store)"
    unfolding full_store_oldest by (meson less_irrefl)
  have was: "0 \<in> fst ` set full_store"
    by (simp add: full_store_key_set)
  show ?thesis
    using e n ev(1) big full_store_distinct gone was
    by (simp add: sample_ticks sample_ticks_store full_store_oldest full_store_plus_one insert_commute
          del: metrics_ticks.simps)
qed

subsection \<open>Alert evaluation\<close>

lemma constructed_thresholds:
  "alertThresholds (constructed t) ''response_time'' = Some \<lparr>warning = 2000, critical = 5000\<rparr>"
  "alertThresholds (constructed t) ''cpu_usage'' = Some \<lparr>warning = 70, critical = 85\<rparr>"
  "alertThresholds (constructed t) ''memory_usage'' = Some \<lparr>warning = 80, critical = 90\<rparr>"
  "alertThresholds (constructed t) ''disk_usage'' = Some \<lparr>warning = 85, critical = 95\<rparr>"
  by (simp_all add: constructed_def initializeMonitoring_def)

lemma checkForAlerts_cpu_only:
  "cpu_usage infra = cpu_usage (infrastructure hr) \<Longrightarrow>
   checkForAlerts w (hr\<lparr>infrastructure := infra\<rparr>) s = checkForAlerts w hr s"
  by (simp add: checkForAlerts_def Let_def cong: if_cong)

text \<open>
  C5. Alert evaluation is to emit one \<open>resource_critical\<close> alert for every
  infrastructure metric above its critical threshold. The thresholds of memory and disk
  usage are configured (90 and 95), yet with memory at 97 and disk at 99 the evaluation
  returns no alert; only the CPU metric is ever compared (\<open>checkForAlerts_cpu_only\<close>).
\<close>

theorem memory_and_disk_alerts_missing:
  "map_option critical (alertThresholds (constructed 0) ''memory_usage'') = Some 90
   \<and> map_option critical (alertThresholds (constructed 0) ''disk_usage'') = Some 95
   \<and> memory_usage (infrastructure memory_exhausted) = Some 97
   \<and> disk_usage (infrastructure memory_exhausted) = Some 99
   \<and> fst (checkForAlerts calm memory_exhausted (constructed 0)) = Inr []
   \<and> map alert_type (projr (fst (checkForAlerts calm cpu_exhausted (constructed 0))))
        = [''resource_critical'']"
  by (simp add: constructed_thresholds memory_exhausted_def cpu_exhausted_def sample_results_def
        svc_up_def agent_up_def checkForAlerts_def then_do_def resolve_def Date_now_def
        threshold_critical_def null_gt_def undef_gt_def Let_def)

subsection \<open>The step log across all operations\<close>

lemma keeps_deploymentStatus:
  "preserves deploymentStatus (checkServicesHealth w)"
  "preserves deploymentStatus (checkAgentsHealth w)"
  "preserves deploymentStatus (checkInfrastructureHealth w)"
  "preserves deploymentStatus (checkForAlerts w hr)"
  "preserves deploymentStatus (sendHealthAlerts w al)"
  by (auto simp: checkServicesHealth_def checkDatabaseHealth_def checkServiceHealth_def
        checkAgentsHealth_def checkAgentHealth_def checkInfrastructureHealth_def
        checkForAlerts_def sendHealthAlerts_def sendEmailAlert_def sendWhatsAppAlert_def
        Let_def split_def
      intro!: preserves_intros)

lemma metrics_tick_keeps_jobs:
  "deploymentStatus (snd (metrics_tick w s)) = deploymentStatus s"
  by (simp add: metrics_tick_def collectPerformanceMetrics_def getSystemMetrics_def
        getAgentMetrics_def getAPIMetrics_def getBusinessMetrics_def try_catch_def then_do_def
        Date_now_def call_def resolve_def
      split: option.splits)

lemma performHealthChecks_keeps_jobs:
  "deploymentStatus (snd (performHealthChecks w s)) = deploymentStatus s"
  by (auto simp: performHealthChecks_def Let_def split: prod.splits sum.splits
      dest!: preservesD[OF keeps_deploymentStatus(1)] preservesD[OF keeps_deploymentStatus(2)]
        preservesD[OF keeps_deploymentStatus(3)] preservesD[OF keeps_deploymentStatus(4)]
        preservesD[OF keeps_deploymentStatus(5)])

lemma clock_back_simps:
  "fails clock_back = (\<lambda>c. None)(Exec ''npx supabase db push --linked'' := Some ''exit status 1'')"
  "takes clock_back = (\<lambda>c. - 250)"
  by (simp_all add: clock_back_def taking_def db_down_simps)

lemma clock_back_env: "\<forall>v \<in> set requiredVars. env_truthy (process_env clock_back) v"
  using db_down_env by (simp add: clock_back_def taking_def)

lemma clock_back_run:
  "map step_timestamp (dep_steps (the (deploymentStatus
     (snd (executeFullDeployment clock_back ''deploy_1000'' ''production'' no_config one_job))
     ''deploy_1000''))) = [1000, 750, 750]"
  by (simp add: executeFullDeployment_def setupEnvironment_present[OF clock_back_env] one_job_simps
        runDatabaseMigrations_def executeCommand_def seedInitialData_def
        updateDeploymentStep_def then_do_def try_catch_def reject_def resolve_def call_def
        mark_failed_def sendDeploymentNotification_def created_deployment_def
        clock_back_simps)

lemma logged_job_simps:
  "deploymentStatus logged_job ''deploy_1000'' =
     Some ((created_deployment 300 ''production'')\<lparr>dep_steps := earlier_steps\<rparr>)"
  "now logged_job = 1000"
  by (simp_all add: logged_job_def constructed_def initializeMonitoring_def)

text \<open>
  C8, as the code has it. The step log of a job is append-only. \<open>updateDeploymentStep\<close>
  adds one entry at the end, stamped with the time of the call; a whole run of
  \<open>executeFullDeployment\<close> keeps the old log as a prefix of the new one, entry for
  entry, and leaves other jobs alone; the health check and the metrics collection do not
  touch any job. The timestamps are those of the wall clock: when it does not go backwards
  while external calls are awaited, the added timestamps are non-decreasing, and a log
  that was in order and not ahead of the clock stays in order.
\<close>

theorem step_log_append_only:
  assumes job: "deploymentStatus s deploymentId = Some d"
  shows "deploymentStatus (snd (updateDeploymentStep deploymentId stepName status s)) =
           (deploymentStatus s)(deploymentId \<mapsto>
              d\<lparr>dep_steps := dep_steps d @
                [\<lparr>step_name = stepName, step_status = status, step_timestamp = now s\<rparr>]\<rparr>)
       \<and> (\<exists>s' d' new.
             executeFullDeployment w deploymentId environment config s = (Inr (), s')
           \<and> deploymentStatus s' deploymentId = Some d'
           \<and> dep_steps d' = dep_steps d @ new
           \<and> prefix (dep_steps d) (dep_steps d')
           \<and> (\<forall>i < length (dep_steps d). dep_steps d' ! i = dep_steps d ! i)
           \<and> (\<forall>other. other \<noteq> deploymentId \<longrightarrow>
                 deploymentStatus s' other = deploymentStatus s other)
           \<and> ((\<forall>c. 0 \<le> takes w c) \<longrightarrow>
                 sorted (map step_timestamp new) \<and>
                 (\<forall>x \<in> set new. now s \<le> step_timestamp x \<and> step_timestamp x \<le> now s'))
           \<and> ((\<forall>c. 0 \<le> takes w c) \<and> sorted (map step_timestamp (dep_steps d)) \<and>
                (\<forall>x \<in> set (dep_steps d). step_timestamp x \<le> now s) \<longrightarrow>
                 sorted (map step_timestamp (dep_steps d'))))
       \<and> deploymentStatus (snd (performHealthChecks w s)) = deploymentStatus s
       \<and> deploymentStatus (snd (metrics_tick w s)) = deploymentStatus s"
proof -
  from executeFullDeployment_job[OF job, of w environment config]
  obtain s' new where
    ex: "executeFullDeployment w deploymentId environment config s = (Inr (), s')" and
    cs: "(case first_failure deploymentId (pipeline w environment config) s of
               None \<Rightarrow>
                 deploymentStatus s' = (deploymentStatus s)(deploymentId \<mapsto>
                   d\<lparr>dep_steps := dep_steps d @ new, dep_status := ''completed'',
                     dep_completed_at := Some (now s'), dep_success := Some True\<rparr>)
                 \<and> map step_tag new = concat (map stage_steps stage_names)
             | Some (n, e) \<Rightarrow>
                 deploymentStatus s' = (deploymentStatus s)(deploymentId \<mapsto>
                   d\<lparr>dep_steps := dep_steps d @ new, dep_status := ''failed'',
                     dep_error := Some e, dep_failed_at := Some (now s')\<rparr>)
                 \<and> map step_tag new =
                     concat (map stage_steps (takeWhile (\<lambda>m. m \<noteq> n) stage_names))
                       @ [(n, ''running'')])" and
    tm: "(\<forall>c. 0 \<le> takes w c) \<longrightarrow>
               sorted (map step_timestamp new) \<and> now s \<le> now s' \<and>
               (\<forall>x \<in> set new. now s \<le> step_timestamp x \<and> step_timestamp x \<le> now s')"
    by blast
  from cs obtain d' where
    d': "deploymentStatus s' = (deploymentStatus s)(deploymentId \<mapsto> d')"
        "dep_steps d' = dep_steps d @ new"
    by (cases "first_failure deploymentId (pipeline w environment config) s") auto
  have srt: "sorted (map step_timestamp (dep_steps d'))"
    if "\<forall>c. 0 \<le> takes w c" "sorted (map step_timestamp (dep_steps d))"
       "\<forall>x \<in> set (dep_steps d). step_timestamp x \<le> now s"
    using that tm by (fastforce simp: d'(2) sorted_append)
  have old: "\<forall>i < length (dep_steps d). dep_steps d' ! i = dep_steps d ! i"
    by (simp add: d'(2) nth_append)
  have upd: "deploymentStatus (snd (updateDeploymentStep deploymentId stepName status s)) =
           (deploymentStatus s)(deploymentId \<mapsto>
              d\<lparr>dep_steps := dep_steps d @
                [\<lparr>step_name = stepName, step_status = status, step_timestamp = now s\<rparr>]\<rparr>)"
    using job by (simp add: updateDeploymentStep_job)
  have run: "\<exists>s' d' new.
             executeFullDeployment w deploymentId environment config s = (Inr (), s')
           \<and> deploymentStatus s' deploymentId = Some d'
           \<and> dep_steps d' = dep_steps d @ new
           \<and> prefix (dep_steps d) (dep_steps d')
           \<and> (\<forall>i < length (dep_steps d). dep_steps d' ! i = dep_steps d ! i)
           \<and> (\<forall>other. other \<noteq> deploymentId \<longrightarrow>
                 deploymentStatus s' other = deploymentStatus s other)
           \<and> ((\<forall>c. 0 \<le> takes w c) \<longrightarrow>
                 sorted (map step_timestamp new) \<and>
                 (\<forall>x \<in> set new. now s \<le> step_timestamp x \<and> step_timestamp x \<le> now s'))
           \<and> ((\<forall>c. 0 \<le> takes w c) \<and> sorted (map step_timestamp (dep_steps d)) \<and>
                (\<forall>x \<in> set (dep_steps d). step_timestamp x \<le> now s) \<longrightarrow>
                 sorted (map step_timestamp (dep_steps d')))"
    apply (rule exI[of _ s'], rule exI[of _ d'], rule exI[of _ new])
    using tm srt old by (simp add: ex d')
  show ?thesis
    using upd run performHealthChecks_keeps_jobs[of w s] metrics_tick_keeps_jobs[of w s]
    by (intro conjI)
qed

theorem step_log_append_only_witness:
  "deploymentStatus logged_job ''deploy_1000'' =
     Some ((created_deployment 300 ''production'')\<lparr>dep_steps := earlier_steps\<rparr>)
   \<and> (\<forall>c. 0 \<le> takes (taking 250 calm) c)
   \<and> map step_timestamp earlier_steps = [400, 900]
   \<and> sorted (map step_timestamp earlier_steps)
   \<and> list_all (\<lambda>x. step_timestamp x \<le> now logged_job) earlier_steps
   \<and> dep_steps (the (deploymentStatus
        (snd (updateDeploymentStep ''deploy_1000'' ''Database Migration'' ''running'' logged_job))
        ''deploy_1000''))
       = earlier_steps @
           [\<lparr>step_name = ''Database Migration'', step_status = ''running'', step_timestamp = 1000\<rparr>]
   \<and> take 2 (dep_steps (the (deploymentStatus
        (snd (executeFullDeployment (taking 250 calm) ''deploy_1000'' ''production'' no_config logged_job))
        ''deploy_1000''))) = earlier_steps
   \<and> prefix earlier_steps (dep_steps (the (deploymentStatus
        (snd (executeFullDeployment (taking 250 calm) ''deploy_1000'' ''production'' no_config logged_job))
        ''deploy_1000'')))
   \<and> sorted (map step_timestamp (dep_steps (the (deploymentStatus
        (snd (executeFullDeployment (taking 250 calm) ''deploy_1000'' ''production'' no_config logged_job))
        ''deploy_1000''))))"
proof -
  let ?d = "(created_deployment 300 ''production'')\<lparr>dep_steps := earlier_steps\<rparr>"
  have job: "deploymentStatus logged_job ''deploy_1000'' = Some ?d"
    by (simp add: logged_job_simps)
  have steps: "dep_steps ?d = earlier_steps" by simp
  have clk: "\<forall>c. 0 \<le> takes (taking 250 calm) c"
    by (simp add: taking_def)
  have ts: "map step_timestamp earlier_steps = [400, 900]"
    by (simp add: earlier_steps_def)
  have s0: "sorted (map step_timestamp (dep_steps ?d))"
    by (simp add: ts)
  have b0: "\<forall>x \<in> set (dep_steps ?d). step_timestamp x \<le> now logged_job"
    by (simp add: earlier_steps_def logged_job_simps)
  note t = step_log_append_only[OF job, where w = "taking 250 calm" and environment = "''production''"
         and config = no_config and stepName = "''Database Migration''" and status = "''running''"]
  from t[THEN conjunct1]
  have upd: "dep_steps (the (deploymentStatus
        (snd (updateDeploymentStep ''deploy_1000'' ''Database Migration'' ''running'' logged_job))
        ''deploy_1000''))
       = earlier_steps @
           [\<lparr>step_name = ''Database Migration'', step_status = ''running'', step_timestamp = 1000\<rparr>]"
    by (simp add: logged_job_simps)
  from t[THEN conjunct2, THEN conjunct1]
  obtain s' d' new where
    ex: "executeFullDeployment (taking 250 calm) ''deploy_1000'' ''production'' no_config logged_job = (Inr (), s')" and
    d: "deploymentStatus s' ''deploy_1000'' = Some d'" and
    app: "dep_steps d' = dep_steps ?d @ new" and
    pre: "prefix (dep_steps ?d) (dep_steps d')" and
    imp: "(\<forall>c. 0 \<le> takes (taking 250 calm) c) \<and>
          sorted (map step_timestamp (dep_steps ?d)) \<and>
          (\<forall>x \<in> set (dep_steps ?d). step_timestamp x \<le> now logged_job)
          \<longrightarrow> sorted (map step_timestamp (dep_steps d'))"
    by (elim exE conjE) (rule that, assumption+)
  from clk s0 b0 have srt: "sorted (map step_timestamp (dep_steps d'))" by (intro mp[OF imp] conjI)
  have tk: "take 2 (dep_steps d') = earlier_steps"
    using app by (simp add: earlier_steps_def)
  have pre': "prefix earlier_steps (dep_steps d')" using pre by simp
  have la: "list_all (\<lambda>x. step_timestamp x \<le> now logged_job) earlier_steps"
    using b0 by (simp add: list_all_iff)
  have s0': "sorted (map step_timestamp earlier_steps)" using s0 by simp
  show ?thesis
    using job clk ts s0' la upd tk pre' srt by (simp only: ex d snd_conv option.sel simp_thms)
qed

text \<open>
  C8 as stated fails: the timestamps are not non-decreasing of themselves. When the wall
  clock is set back while the configuration file is written, the log of a fresh job reads
  1000, 750, 750.
\<close>

theorem clock_set_back_counterexample:
  "takes clock_back (WriteFile ''.env.deployment'') = - 250
   \<and> dep_steps (the (deploymentStatus one_job ''deploy_1000'')) = []
   \<and> map step_timestamp (dep_steps (the (deploymentStatus
        (snd (executeFullDeployment clock_back ''deploy_1000'' ''production'' no_config one_job))
        ''deploy_1000''))) = [1000, 750, 750]
   \<and> \<not> sorted (map step_timestamp (dep_steps (the (deploymentStatus
        (snd (executeFullDeployment clock_back ''deploy_1000'' ''production'' no_config one_job))
        ''deploy_1000''))))"
  by (simp add: clock_back_run clock_back_simps one_job_simps created_deployment_def)

end
